theory Spec2Isabelle
  imports Complex_Main "HOL-Library.Log_Nat" "HOL-Library.Char_ord" "HOL-Library.List_Lexorder"
begin

section \<open>JavaScript numbers\<close>

text \<open>
  A JavaScript number is an IEEE-754 binary64 value: a finite double, an infinity or NaN. A
  finite double is kept as the real number it denotes; the two zeros are identified, which
  no modelled operation can tell apart (every divisor of the source is a count, a non-zero
  constant, or guarded by a comparison with 0). Every arithmetic operation rounds the exact
  result to the nearest double, ties to the even significand (\<open>rnd\<close>).
\<close>

datatype num = Fin real | PInf | NInf | NaN

text \<open>\<open>pow2 e\<close> is \<open>2\<close> to the power \<open>e\<close>; \<open>ilog2 a\<close> is the binary exponent of \<open>a > 0\<close>.\<close>

definition pow2 :: "int \<Rightarrow> real" where
  "pow2 e = (if e \<ge> 0 then 2 ^ nat e else 1 / 2 ^ nat (- e))"

definition ilog2 :: "real \<Rightarrow> int" where
  "ilog2 a = (if a \<ge> 1 then int (floorlog 2 (nat \<lfloor>a\<rfloor>)) - 1
              else - int (floorlog 2 (nat \<lceil>1 / a\<rceil> - 1)))"

text \<open>The exponent of the binade of \<open>a\<close>; subnormal numbers share the exponent \<open>-1022\<close>.\<close>

definition expo :: "real \<Rightarrow> int" where
  "expo a = max (ilog2 a) (- 1022)"

text \<open>Rounding to the nearest integer, ties to even.\<close>

definition rne :: "real \<Rightarrow> int" where
  "rne t = (let f = \<lfloor>t\<rfloor>; d = t - of_int f
            in if d < 1 / 2 then f else if d > 1 / 2 then f + 1
               else if even f then f else f + 1)"

text \<open>The magnitude \<open>a > 0\<close> rounded to 53 significant bits (fewer in the subnormal range).\<close>

definition mag :: "real \<Rightarrow> real" where
  "mag a = of_int (rne (a / pow2 (expo a - 52))) * pow2 (expo a - 52)"

definition rnd :: "real \<Rightarrow> num" where
  "rnd x = (if x = 0 then Fin 0
            else if x > 0 then (if mag x \<ge> 2 ^ 1024 then PInf else Fin (mag x))
            else (if mag (- x) \<ge> 2 ^ 1024 then NInf else Fin (- mag (- x))))"

text \<open>The comparisons \<^verbatim>\<open><\<close>, \<^verbatim>\<open><=\<close>, \<^verbatim>\<open>>\<close>, \<^verbatim>\<open>>=\<close> and \<^verbatim>\<open>===\<close>: false whenever an operand is NaN.\<close>

fun lt :: "num \<Rightarrow> num \<Rightarrow> bool" where
  "lt (Fin a) (Fin b) = (a < b)"
| "lt (Fin a) PInf = True"
| "lt NInf (Fin b) = True"
| "lt NInf PInf = True"
| "lt _ _ = False"

fun le :: "num \<Rightarrow> num \<Rightarrow> bool" where
  "le (Fin a) (Fin b) = (a \<le> b)"
| "le (Fin a) PInf = True"
| "le NInf (Fin b) = True"
| "le NInf PInf = True"
| "le PInf PInf = True"
| "le NInf NInf = True"
| "le _ _ = False"

definition gt :: "num \<Rightarrow> num \<Rightarrow> bool" where
  "gt a b = lt b a"

definition ge :: "num \<Rightarrow> num \<Rightarrow> bool" where
  "ge a b = le b a"

definition feq :: "num \<Rightarrow> num \<Rightarrow> bool" where
  "feq a b = (a = b \<and> a \<noteq> NaN)"

text \<open>Unary minus and \<^verbatim>\<open>Math.abs\<close>.\<close>

fun fneg :: "num \<Rightarrow> num" where
  "fneg (Fin a) = Fin (- a)"
| "fneg PInf = NInf"
| "fneg NInf = PInf"
| "fneg NaN = NaN"

fun fabs :: "num \<Rightarrow> num" where
  "fabs (Fin a) = Fin \<bar>a\<bar>"
| "fabs PInf = PInf"
| "fabs NInf = PInf"
| "fabs NaN = NaN"

text \<open>The operators \<^verbatim>\<open>+\<close>, \<^verbatim>\<open>-\<close>, \<^verbatim>\<open>*\<close> and \<^verbatim>\<open>/\<close> on numbers.\<close>

fun fadd :: "num \<Rightarrow> num \<Rightarrow> num" where
  "fadd (Fin a) (Fin b) = rnd (a + b)"
| "fadd NaN _ = NaN"
| "fadd _ NaN = NaN"
| "fadd PInf NInf = NaN"
| "fadd NInf PInf = NaN"
| "fadd PInf _ = PInf"
| "fadd _ PInf = PInf"
| "fadd NInf _ = NInf"
| "fadd _ NInf = NInf"

definition fsub :: "num \<Rightarrow> num \<Rightarrow> num" where
  "fsub a b = fadd a (fneg b)"

fun fmul :: "num \<Rightarrow> num \<Rightarrow> num" where
  "fmul (Fin a) (Fin b) = rnd (a * b)"
| "fmul NaN _ = NaN"
| "fmul _ NaN = NaN"
| "fmul (Fin a) PInf = (if a = 0 then NaN else if a > 0 then PInf else NInf)"
| "fmul (Fin a) NInf = (if a = 0 then NaN else if a > 0 then NInf else PInf)"
| "fmul PInf (Fin b) = (if b = 0 then NaN else if b > 0 then PInf else NInf)"
| "fmul NInf (Fin b) = (if b = 0 then NaN else if b > 0 then NInf else PInf)"
| "fmul PInf PInf = PInf"
| "fmul NInf NInf = PInf"
| "fmul PInf NInf = NInf"
| "fmul NInf PInf = NInf"

fun fdiv :: "num \<Rightarrow> num \<Rightarrow> num" where
  "fdiv (Fin a) (Fin b) =
     (if b = 0 then (if a = 0 then NaN else if a > 0 then PInf else NInf) else rnd (a / b))"
| "fdiv NaN _ = NaN"
| "fdiv _ NaN = NaN"
| "fdiv (Fin a) _ = Fin 0"
| "fdiv PInf (Fin b) = (if b \<ge> 0 then PInf else NInf)"
| "fdiv NInf (Fin b) = (if b \<ge> 0 then NInf else PInf)"
| "fdiv _ _ = NaN"

text \<open>
  \<^verbatim>\<open>Math.sqrt\<close> is correctly rounded. \<^verbatim>\<open>Math.pow(x, 2)\<close> and \<^verbatim>\<open>x ** 2\<close> are the
  product \<open>x * x\<close>.
\<close>

fun fsqrt :: "num \<Rightarrow> num" where
  "fsqrt (Fin a) = (if a < 0 then NaN else rnd (sqrt a))"
| "fsqrt PInf = PInf"
| "fsqrt NInf = NaN"
| "fsqrt NaN = NaN"

definition fsq :: "num \<Rightarrow> num" where
  "fsq x = fmul x x"

text \<open>\<^verbatim>\<open>Math.min\<close> and \<^verbatim>\<open>Math.max\<close> of two numbers: NaN if either is.\<close>

definition fmin :: "num \<Rightarrow> num \<Rightarrow> num" where
  "fmin a b = (if a = NaN \<or> b = NaN then NaN else if lt a b then a else b)"

definition fmax :: "num \<Rightarrow> num \<Rightarrow> num" where
  "fmax a b = (if a = NaN \<or> b = NaN then NaN else if lt a b then b else a)"

text \<open>
  \<^verbatim>\<open>Math.exp\<close> is implementation-approximated: its values on finite arguments are a
  parameter of the model, its values at the infinities and at NaN are fixed.
\<close>

type_synonym exp_fn = "real \<Rightarrow> num"

fun fexp :: "exp_fn \<Rightarrow> num \<Rightarrow> num" where
  "fexp mexp (Fin a) = mexp a"
| "fexp mexp PInf = PInf"
| "fexp mexp NInf = Fin 0"
| "fexp mexp NaN = NaN"

text \<open>A decimal literal of the source denotes the double nearest to it.\<close>

definition lit :: "real \<Rightarrow> num" where
  "lit x = rnd x"

text \<open>The length of an array, or a counter, as a number.\<close>

definition count :: "nat \<Rightarrow> num" where
  "count n = Fin (real n)"

text \<open>\<^verbatim>\<open>x || 0\<close> on a number: NaN and 0 are falsy.\<close>

definition or_zero :: "num \<Rightarrow> num" where
  "or_zero x = (if x = NaN \<or> x = Fin 0 then Fin 0 else x)"

text \<open>
  \<open>toFixed k x\<close> is the number read back by \<^verbatim>\<open>parseFloat(x.toFixed(k))\<close> (and by the
  unary plus): \<^verbatim>\<open>toFixed\<close> writes the exact value of the double \<open>x\<close> rounded to \<open>k\<close>
  decimals, halves away from zero, and reading the decimal back rounds it to the nearest
  double. The infinities and NaN are written by name and read back as themselves.
\<close>

definition decimal_round :: "nat \<Rightarrow> real \<Rightarrow> real" where
  "decimal_round k x =
     (if x < 0 then - (real_of_int \<lfloor>(- x) * 10 ^ k + 1 / 2\<rfloor> / 10 ^ k)
      else real_of_int \<lfloor>x * 10 ^ k + 1 / 2\<rfloor> / 10 ^ k)"

fun toFixed :: "nat \<Rightarrow> num \<Rightarrow> num" where
  "toFixed k (Fin x) = rnd (decimal_round k x)"
| "toFixed k v = v"

section \<open>Statistics primitives (analysis.js)\<close>

definition mean :: "num list \<Rightarrow> num" where
  "mean arr = (if length arr = 0 then Fin 0
               else fdiv (foldl (\<lambda>s v. fadd s v) (Fin 0) arr) (count (length arr)))"

text \<open>The sum of squared deviations from \<open>m\<close>, accumulated from the left.\<close>

definition squared_deviations :: "num \<Rightarrow> num list \<Rightarrow> num" where
  "squared_deviations m arr = foldl (\<lambda>s v. fadd s (fsq (fsub v m))) (Fin 0) arr"

definition stddev :: "num list \<Rightarrow> num" where
  "stddev arr =
     (if length arr < 2 then Fin 0
      else let m = mean arr
           in fsqrt (fdiv (squared_deviations m arr) (count (length arr - 1))))"

text \<open>The accumulators \<open>num\<close>, \<open>dx2\<close>, \<open>dy2\<close> of the loop of \<open>pearson\<close>, one step per index.\<close>

definition pearson_step :: "num list \<Rightarrow> num list \<Rightarrow> num \<Rightarrow> num \<Rightarrow> nat
    \<Rightarrow> num \<times> num \<times> num \<Rightarrow> num \<times> num \<times> num" where
  "pearson_step xs ys mx my i acc =
     (case acc of (num, dx2, dy2) \<Rightarrow>
        let dx = fsub (xs ! i) mx; dy = fsub (ys ! i) my
        in (fadd num (fmul dx dy), fadd dx2 (fmul dx dx), fadd dy2 (fmul dy dy)))"

definition pearson :: "num list \<Rightarrow> num list \<Rightarrow> num" where
  "pearson xs ys =
     (let n = min (length xs) (length ys)
      in if n < 3 then Fin 0
         else let mx = mean (take n xs); my = mean (take n ys)
              in case fold (pearson_step xs ys mx my) [0..<n] (Fin 0, Fin 0, Fin 0) of
                   (num, dx2, dy2) \<Rightarrow>
                     let denom = fsqrt (fmul dx2 dy2)
                     in if feq denom (Fin 0) then Fin 0 else fdiv num denom)"

text \<open>
  \<^verbatim>\<open>xs.slice(0, xs.length - lag)\<close>: a negative end counts from the end of the array, so
  for \<open>lag\<close> beyond the length the slice ends at \<open>2 * length xs - lag\<close> (or at 0).
\<close>

definition laggedPearson :: "num list \<Rightarrow> num list \<Rightarrow> nat \<Rightarrow> num" where
  "laggedPearson xs ys lag =
     (let xSlice = (if lag \<le> length xs then take (length xs - lag) xs
                    else take (2 * length xs - lag) xs);
          ySlice = drop lag ys
      in pearson xSlice ySlice)"

section \<open>Correlation engine (analysis.js)\<close>

definition classifyCorrelation :: "num \<Rightarrow> string" where
  "classifyCorrelation r =
     (let a = fabs r
      in if ge a (lit 0.7) then ''STRONG''
         else if ge a (lit 0.4) then ''MODERATE''
         else if ge a (lit 0.2) then ''WEAK''
         else ''NEGLIGIBLE'')"

record lag_correlation =
  lag :: nat
  r :: num
  strength :: string

text \<open>One iteration of the lag search: the state is the pair \<open>best = (lag, r)\<close>.\<close>

definition lag_step :: "num list \<Rightarrow> num list \<Rightarrow> nat \<Rightarrow> nat \<times> num \<Rightarrow> nat \<times> num" where
  "lag_step xs ys l best =
     (let r' = laggedPearson xs ys l
      in if gt (fabs r') (fabs (snd best)) then (l, r') else best)"

definition best_lag :: "num list \<Rightarrow> num list \<Rightarrow> nat \<Rightarrow> nat \<times> num" where
  "best_lag xs ys maxLag = fold (lag_step xs ys) [1..<Suc maxLag] (0, pearson xs ys)"

definition bestLagCorrelation :: "num list \<Rightarrow> num list \<Rightarrow> nat option \<Rightarrow> lag_correlation" where
  "bestLagCorrelation xs ys maxLag_opt =
     (let maxLag = (case maxLag_opt of None \<Rightarrow> 3 | Some m \<Rightarrow> m);
          best = best_lag xs ys maxLag
      in \<lparr>lag = fst best, r = toFixed 4 (snd best), strength = classifyCorrelation (snd best)\<rparr>)"

text \<open>The candidates of the search: plain \<open>pearson\<close> at lag 0, \<open>laggedPearson\<close> from lag 1 on.\<close>

definition lag_candidate :: "num list \<Rightarrow> num list \<Rightarrow> nat \<Rightarrow> num" where
  "lag_candidate xs ys l = (if l = 0 then pearson xs ys else laggedPearson xs ys l)"

section \<open>Records read by the server (revenueguard-server.js)\<close>

text \<open>
  Only the fields the analysis reads are kept. Timestamps are ISO-8601 strings; the source
  compares and sorts them as strings, by character code, which is the lexicographic order of
  \<open>string\<close> here, and cuts the calendar day off with \<^verbatim>\<open>slice(0, 10)\<close>.
\<close>

record timed =
  timestamp :: string

record stamped = timed +
  service :: string

record invoice = stamped +
  amountExpected :: num
  amountBilled :: num

record event = stamped +
  eventType :: string
  version :: "string option"

record transaction = timed +
  status :: string

type_synonym churn_event = timed

text \<open>
  \<^verbatim>\<open>new Date(s)\<close> read as milliseconds since the epoch is a built-in outside the source:
  it is a parameter of the model, \<open>None\<close> standing for an invalid date, whose time value is
  NaN.
\<close>

type_synonym date_parser = "string \<Rightarrow> int option"

definition time_value :: "int option \<Rightarrow> num" where
  "time_value t = (case t of None \<Rightarrow> NaN | Some ms \<Rightarrow> Fin (real_of_int ms))"

text \<open>The constant \<^verbatim>\<open>1000 * 60 * 60 * 24\<close>, a product of small integers.\<close>

definition ms_per_day :: num where
  "ms_per_day = Fin (1000 * 60 * 60 * 24)"

text \<open>The test \<^verbatim>\<open>inv.amountBilled < inv.amountExpected\<close> that marks an invoice as anomalous.\<close>

definition is_anomaly :: "invoice \<Rightarrow> bool" where
  "is_anomaly iv = lt (amountBilled iv) (amountExpected iv)"

text \<open>
  \<^verbatim>\<open>service ? invoices.filter(inv => inv.service === service) : invoices\<close>: a filter
  that is \<^verbatim>\<open>null\<close> or the empty string is falsy and keeps all invoices.
\<close>

definition service_filter :: "string option \<Rightarrow> invoice list \<Rightarrow> invoice list" where
  "service_filter svc invoices =
     (case svc of None \<Rightarrow> invoices
      | Some s \<Rightarrow> if s = [] then invoices else filter (\<lambda>iv. service iv = s) invoices)"

section \<open>Statistical drift detection\<close>

record daily_drift =
  date :: string
  anomalyRate :: num
  driftFactor :: num

record drift_result =
  baselineRate :: num
  currentRate :: num
  driftFactor :: num
  stdDev :: num
  zScore :: num
  statistical_significance :: string
  spike :: bool
  threshold :: num
  dailyDrift :: "daily_drift list"

text \<open>
  \<open>byDay\<close> is the object keyed by day, in insertion order, holding the pair of \<^verbatim>\<open>total\<close> and \<^verbatim>\<open>anomalies\<close>.
  Day keys are date prefixes, never array indices, so the object keeps insertion order.
\<close>

fun bump_day :: "string \<Rightarrow> bool \<Rightarrow> (string \<times> nat \<times> nat) list \<Rightarrow> (string \<times> nat \<times> nat) list" where
  "bump_day d a [] = [(d, 1, if a then 1 else 0)]"
| "bump_day d a ((d', t, n) # rest) =
     (if d' = d then (d', t + 1, if a then n + 1 else n) # rest
      else (d', t, n) # bump_day d a rest)"

definition byDay_of :: "invoice list \<Rightarrow> (string \<times> nat \<times> nat) list" where
  "byDay_of filtered =
     foldl (\<lambda>byDay iv. bump_day (take 10 (timestamp iv)) (is_anomaly iv) byDay) [] filtered"

text \<open>\<^verbatim>\<open>v.anomalies / v.total\<close> for one day.\<close>

definition rate_of :: "nat \<times> nat \<Rightarrow> num" where
  "rate_of v = (case v of (tot, anomalies) \<Rightarrow> fdiv (count anomalies) (count tot))"

text \<open>\<^verbatim>\<open>byDay[d]\<close> for a key \<open>d\<close> taken from \<open>byDay\<close> itself.\<close>

definition day_rate :: "(string \<times> nat \<times> nat) list \<Rightarrow> string \<Rightarrow> num" where
  "day_rate byDay d = (case map_of byDay d of Some v \<Rightarrow> rate_of v | None \<Rightarrow> Fin 0)"

text \<open>\<^verbatim>\<open>rs.length > 0 ? rs.reduce((s, r) => s + r, 0) / rs.length : 0\<close>.\<close>

definition avg_rate :: "num list \<Rightarrow> num" where
  "avg_rate rs =
     (if length rs > 0 then fdiv (foldl (\<lambda>s r. fadd s r) (Fin 0) rs) (count (length rs))
      else Fin 0)"

definition baselineDays_of :: "(string \<times> nat \<times> nat) list \<Rightarrow> string \<Rightarrow> num list" where
  "baselineDays_of byDay baselineEnd =
     map (\<lambda>(day, v). rate_of v) (filter (\<lambda>(day, v). day < baselineEnd) byDay)"

text \<open>\<^verbatim>\<open>sortedDays.slice(-3)\<close>: the last three days, or all of them.\<close>

definition recentDays_of :: "string list \<Rightarrow> string list" where
  "recentDays_of sortedDays = drop (length sortedDays - 3) sortedDays"

definition variance_of :: "num list \<Rightarrow> num \<Rightarrow> num" where
  "variance_of baselineDays base =
     (if length baselineDays > 1
      then fdiv (foldl (\<lambda>s r. fadd s (fsq (fsub r base))) (Fin 0) baselineDays)
             (count (length baselineDays - 1))
      else lit 0.0001)"

definition significance_of :: "num \<Rightarrow> string" where
  "significance_of z =
     (if gt z (Fin 3) then ''HIGH_SIGNAL'' else (if gt z (Fin 2) then ''MODERATE'' else ''NOISE''))"

definition computeDriftDetection ::
    "invoice list \<Rightarrow> string option \<Rightarrow> string \<Rightarrow> num \<Rightarrow> drift_result" where
  "computeDriftDetection invoices svc baselineEnd driftThreshold =
     (let filtered = service_filter svc invoices;
          byDay = byDay_of filtered;
          baselineDays = baselineDays_of byDay baselineEnd;
          baselineRate = avg_rate baselineDays;
          sortedDays = sort (map fst byDay);
          recentDays = recentDays_of sortedDays;
          recentRates = map (day_rate byDay) recentDays;
          currentRate = avg_rate recentRates;
          driftFactor = (if gt baselineRate (Fin 0) then fdiv currentRate baselineRate else Fin 0);
          spike = gt driftFactor driftThreshold;
          variance = variance_of baselineDays baselineRate;
          stdDev = fsqrt variance;
          zScore = (if gt stdDev (Fin 0) then fdiv (fsub currentRate baselineRate) stdDev
                    else Fin 0);
          statistical_significance = significance_of zScore;
          dailyDrift = map (\<lambda>day.
              \<lparr>date = day,
               anomalyRate = toFixed 2 (fmul (day_rate byDay day) (Fin 100)),
               daily_drift.driftFactor =
                 (if gt baselineRate (Fin 0)
                  then toFixed 2 (fdiv (day_rate byDay day) baselineRate) else Fin 0)\<rparr>)
            sortedDays
      in \<lparr>baselineRate = toFixed 2 (fmul baselineRate (Fin 100)),
          currentRate = toFixed 2 (fmul currentRate (Fin 100)),
          drift_result.driftFactor = toFixed 2 driftFactor,
          stdDev = toFixed 4 (fmul stdDev (Fin 100)),
          zScore = toFixed 2 zScore,
          statistical_significance = statistical_significance,
          spike = spike,
          threshold = driftThreshold,
          dailyDrift = dailyDrift\<rparr>)"

text \<open>The defaults of the source: no service filter, baseline up to 2026-02-10, threshold 3.\<close>

definition computeDriftDetection_default :: "invoice list \<Rightarrow> drift_result" where
  "computeDriftDetection_default invoices =
     computeDriftDetection invoices None ''2026-02-10'' (Fin 3)"

definition findSpikeStart :: "daily_drift list \<Rightarrow> num \<Rightarrow> string option" where
  "findSpikeStart dd thr =
     (case find (\<lambda>d. gt (daily_drift.driftFactor d) thr) dd of
        Some sp \<Rightarrow> Some (date sp) | None \<Rightarrow> None)"

section \<open>Confidence scorer\<close>

record confidence_result =
  confidence :: num
  classification :: string
  temporalScore :: num
  spikeStart :: "string option"
  rateBefore :: num
  rateAfter :: num

text \<open>
  The pattern \<^verbatim>\<open>xs.length > 0 ? anomalies / xs.length : 0\<close>, used for the invoices
  before and after a deployment and for the whole set in the risk model.
\<close>

definition anomaly_rate :: "invoice list \<Rightarrow> num" where
  "anomaly_rate xs =
     (if length xs > 0 then fdiv (count (length (filter is_anomaly xs))) (count (length xs))
      else Fin 0)"

text \<open>
  The temporal score from the spike start and the deployment date. An empty date string is
  falsy; a date that does not parse makes \<open>diffDays\<close> NaN, every comparison false and the
  score 0.
\<close>

definition temporal_score :: "date_parser \<Rightarrow> string option \<Rightarrow> string \<Rightarrow> num" where
  "temporal_score parse start deploymentDate =
     (case start of
        None \<Rightarrow> Fin 0
      | Some s \<Rightarrow>
          if s = [] then Fin 0
          else let diffDays = fdiv (fsub (time_value (parse s))
                                         (time_value (parse (take 10 deploymentDate))))
                                ms_per_day
               in if ge diffDays (Fin 0) \<and> le diffDays (Fin 1) then Fin 1
                  else if gt diffDays (Fin 1) \<and> le diffDays (Fin 3) then lit 0.7
                  else if lt diffDays (Fin 0) then fneg (lit 0.5)
                  else Fin 0)"

definition classify_confidence :: "num \<Rightarrow> string" where
  "classify_confidence c =
     (if ge c (lit 0.7) then ''STRONG CAUSAL LINK''
      else if ge c (lit 0.3) then ''MODERATE CORRELATION''
      else if ge c (Fin 0) then ''WEAK SIGNAL''
      else ''INVERSE CORRELATION'')"

text \<open>The value \<open>clampedConfidence\<close> of the source, before it is rounded for output.\<close>

definition clampedConfidence_of :: "num \<Rightarrow> num \<Rightarrow> num" where
  "clampedConfidence_of tscore impactDelta =
     (let conf = fadd (fmul tscore (lit 0.6)) (fmin (fmul impactDelta (Fin 5)) (lit 0.4))
      in fmax (Fin (- 1)) (fmin (Fin 1) conf))"

definition computeConfidence :: "date_parser \<Rightarrow> invoice list \<Rightarrow> string \<Rightarrow> string \<Rightarrow> confidence_result" where
  "computeConfidence parse invoices svc deploymentDate =
     (let serviceInvoices = filter (\<lambda>iv. service iv = svc) invoices;
          drift = computeDriftDetection_default serviceInvoices;
          start = findSpikeStart (dailyDrift drift) (Fin 2);
          before = filter (\<lambda>iv. timestamp iv < deploymentDate) serviceInvoices;
          after = filter (\<lambda>iv. timestamp iv \<ge> deploymentDate) serviceInvoices;
          rBefore = anomaly_rate before;
          rAfter = anomaly_rate after;
          tscore = temporal_score parse start deploymentDate;
          impactDelta = fsub rAfter rBefore;
          clamped = clampedConfidence_of tscore impactDelta
      in \<lparr>confidence = toFixed 4 clamped,
          classification = classify_confidence clamped,
          temporalScore = tscore,
          spikeStart = start,
          rateBefore = toFixed 2 (fmul rBefore (Fin 100)),
          rateAfter = toFixed 2 (fmul rAfter (Fin 100))\<rparr>)"

section \<open>Deployment recency and composite risk\<close>

text \<open>
  The instant \<^verbatim>\<open>new Date('2026-02-21T23:59:59Z')\<close> in milliseconds since the epoch.
  Every call of \<open>computeRecencyFactor\<close> in the source leaves the decay constant at its
  default 7.
\<close>

definition now_ms :: int where
  "now_ms = 1771718399000"

record recency =
  daysSinceDeployment :: num
  decayConstant :: "num option"
  recencyFactor :: num

definition computeRecencyFactor :: "exp_fn \<Rightarrow> date_parser \<Rightarrow> string \<Rightarrow> recency" where
  "computeRecencyFactor mexp parse deploymentTimestamp =
     (let now = Fin (real_of_int now_ms);
          deployDate = time_value (parse deploymentTimestamp);
          daysSince = fdiv (fsub now deployDate) ms_per_day;
          factor = fexp mexp (fdiv (fneg daysSince) (Fin 7))
      in \<lparr>daysSinceDeployment = toFixed 1 daysSince,
          decayConstant = Some (Fin 7),
          recencyFactor = toFixed 4 factor\<rparr>)"

text \<open>
  \<^verbatim>\<open>Array.prototype.sort\<close> with a comparator is stable; it is modelled as a stable
  insertion sort. A comparator value that is NaN counts as 0; where that makes the comparator
  inconsistent (invalid dates among valid ones) the source leaves the order to the engine.
\<close>

definition not_after :: "num \<Rightarrow> bool" where
  "not_after v = (v = NaN \<or> le v (Fin 0))"

fun insert_cmp :: "('a \<Rightarrow> 'a \<Rightarrow> num) \<Rightarrow> 'a \<Rightarrow> 'a list \<Rightarrow> 'a list" where
  "insert_cmp cmp x [] = [x]"
| "insert_cmp cmp x (y # ys) =
     (if not_after (cmp y x) then y # insert_cmp cmp x ys else x # y # ys)"

definition sort_cmp :: "('a \<Rightarrow> 'a \<Rightarrow> num) \<Rightarrow> 'a list \<Rightarrow> 'a list" where
  "sort_cmp cmp xs = foldl (\<lambda>acc x. insert_cmp cmp x acc) [] xs"

text \<open>The comparator \<^verbatim>\<open>(a, b) => new Date(b.timestamp) - new Date(a.timestamp)\<close>.\<close>

definition newest_first :: "date_parser \<Rightarrow> event \<Rightarrow> event \<Rightarrow> num" where
  "newest_first parse a b =
     fsub (time_value (parse (timestamp b))) (time_value (parse (timestamp a)))"

record anomalyRate_component =
  raw :: num
  normalized :: num
  weight :: num
  contribution :: num

record financialImpact_component =
  lossRatio :: num
  normalized :: num
  weight :: num
  contribution :: num

record deploymentRecency_component = recency +
  weight :: num
  contribution :: num

record risk_components =
  anomalyRate :: anomalyRate_component
  financialImpact :: financialImpact_component
  deploymentRecency :: deploymentRecency_component

record risk_score =
  score :: num
  category :: string
  components :: risk_components

definition risk_category :: "num \<Rightarrow> string" where
  "risk_category s =
     (if gt s (lit 0.8) then ''CRITICAL''
      else if gt s (lit 0.6) then ''HIGH''
      else if gt s (lit 0.3) then ''MEDIUM''
      else ''LOW'')"

text \<open>The totals and the loss ratio at the head of \<open>computeRiskScore\<close>.\<close>

definition total_expected :: "invoice list \<Rightarrow> num" where
  "total_expected invoices = foldl (\<lambda>s iv. fadd s (amountExpected iv)) (Fin 0) invoices"

definition total_billed :: "invoice list \<Rightarrow> num" where
  "total_billed invoices = foldl (\<lambda>s iv. fadd s (amountBilled iv)) (Fin 0) invoices"

definition loss_ratio :: "invoice list \<Rightarrow> num" where
  "loss_ratio invoices =
     (let totalExpected = total_expected invoices;
          totalBilled = total_billed invoices;
          totalLoss = fsub totalExpected totalBilled
      in if gt totalExpected (Fin 0) then fdiv totalLoss totalExpected else Fin 0)"

text \<open>The object \<open>recency\<close>: that of the latest deployment, or the fixed one without any.\<close>

definition recency_of :: "exp_fn \<Rightarrow> date_parser \<Rightarrow> event list \<Rightarrow> recency" where
  "recency_of mexp parse events =
     (let deployments = sort_cmp (newest_first parse)
                          (filter (\<lambda>e. eventType e = ''deployment'') events)
      in case deployments of
           latestDeployment # _ \<Rightarrow> computeRecencyFactor mexp parse (timestamp latestDeployment)
         | [] \<Rightarrow> \<lparr>daysSinceDeployment = Fin 999, decayConstant = None, recencyFactor = Fin 0\<rparr>)"

text \<open>The three normalised components and the weighted sum \<open>score\<close>, before it is rounded.\<close>

definition anomalyRateNorm_of :: "invoice list \<Rightarrow> num" where
  "anomalyRateNorm_of invoices = fmin (fmul (anomaly_rate invoices) (Fin 2)) (Fin 1)"

definition lossNorm_of :: "invoice list \<Rightarrow> num" where
  "lossNorm_of invoices = fmin (fmul (loss_ratio invoices) (Fin 10)) (Fin 1)"

definition weighted_sum :: "num \<Rightarrow> num \<Rightarrow> num \<Rightarrow> num" where
  "weighted_sum anomalyRateNorm lossNorm rf =
     fadd (fadd (fmul anomalyRateNorm (lit 0.4)) (fmul lossNorm (lit 0.35))) (fmul rf (lit 0.25))"

definition computeRiskScore :: "exp_fn \<Rightarrow> date_parser \<Rightarrow> invoice list \<Rightarrow> event list \<Rightarrow> risk_score" where
  "computeRiskScore mexp parse invoices events =
     (let anomalyRate = anomaly_rate invoices;
          lossRatio = loss_ratio invoices;
          rec = recency_of mexp parse events;
          anomalyRateNorm = anomalyRateNorm_of invoices;
          lossNorm = lossNorm_of invoices;
          score = weighted_sum anomalyRateNorm lossNorm (recencyFactor rec)
      in \<lparr>score = toFixed 4 score,
          category = risk_category score,
          components =
            \<lparr>anomalyRate =
               \<lparr>raw = toFixed 2 (fmul anomalyRate (Fin 100)),
                anomalyRate_component.normalized = toFixed 4 anomalyRateNorm,
                anomalyRate_component.weight = lit 0.4,
                anomalyRate_component.contribution = toFixed 4 (fmul anomalyRateNorm (lit 0.4))\<rparr>,
             financialImpact =
               \<lparr>lossRatio = toFixed 4 (fmul lossRatio (Fin 100)),
                financialImpact_component.normalized = toFixed 4 lossNorm,
                financialImpact_component.weight = lit 0.35,
                financialImpact_component.contribution = toFixed 4 (fmul lossNorm (lit 0.35))\<rparr>,
             deploymentRecency =
               \<lparr>daysSinceDeployment = daysSinceDeployment rec,
                decayConstant = decayConstant rec,
                recencyFactor = recencyFactor rec,
                deploymentRecency_component.weight = lit 0.25,
                deploymentRecency_component.contribution =
                  toFixed 4 (fmul (recencyFactor rec) (lit 0.25))\<rparr>\<rparr>\<rparr>)"

section \<open>Agent tools\<close>

text \<open>
  The tools also append to an in-memory audit log; the log does not flow back into any
  result and is left out.
\<close>

definition get_anomaly_stats :: "invoice list \<Rightarrow> drift_result" where
  "get_anomaly_stats serviceInvoices = computeDriftDetection_default serviceInvoices"

definition get_deployment_history :: "string \<Rightarrow> event list \<Rightarrow> event list" where
  "get_deployment_history svc events =
     filter (\<lambda>e. service e = svc \<and> eventType e = ''deployment'') events"

text \<open>\<^verbatim>\<open>spikeStart && t.timestamp >= spikeStart\<close>: null and the empty string are falsy.\<close>

definition since_spike :: "string option \<Rightarrow> string \<Rightarrow> bool" where
  "since_spike start ts = (case start of None \<Rightarrow> False | Some s \<Rightarrow> s \<noteq> [] \<and> ts \<ge> s)"

definition get_transaction_failures :: "transaction list \<Rightarrow> string option \<Rightarrow> nat" where
  "get_transaction_failures transactions start =
     length (filter (\<lambda>t. status t = ''FAILED'' \<and> since_spike start (timestamp t)) transactions)"

definition get_churn_risk :: "churn_event list \<Rightarrow> string option \<Rightarrow> nat" where
  "get_churn_risk churn start = length (filter (\<lambda>c. since_spike start (timestamp c)) churn)"

text \<open>
  The handler's \<open>totalLoss\<close>: the sum of \<^verbatim>\<open>amountExpected - amountBilled\<close> over the
  anomalous invoices of the service.
\<close>

definition total_loss :: "invoice list \<Rightarrow> num" where
  "total_loss xs =
     foldl (\<lambda>s iv. fadd s (fsub (amountExpected iv) (amountBilled iv))) (Fin 0)
       (filter is_anomaly xs)"

record forecast =
  observed_loss :: num
  monthly_projection :: num
  annualized_risk :: num
  protected_arr :: num

definition forecast_loss :: "num \<Rightarrow> forecast" where
  "forecast_loss loss =
     \<lparr>observed_loss = loss,
      monthly_projection = fmul loss (lit 1.4),
      annualized_risk = fmul (fmul loss (Fin 12)) (lit 0.2),
      protected_arr = fmul loss (Fin 8)\<rparr>"

record culprit = timed +
  version :: "string option"
  confidence :: num
  classification :: string
  spikeStart :: "string option"

record decision =
  verdict :: string
  recommended_actions :: "string list"
  confidence :: num

text \<open>A string or null interpolated into a template literal.\<close>

definition interpolate :: "string option \<Rightarrow> string" where
  "interpolate v = (case v of None \<Rightarrow> ''null'' | Some s \<Rightarrow> s)"

text \<open>\<^verbatim>\<open>culprit?.confidence > 0.5\<close>: false when there is no culprit.\<close>

definition confident :: "culprit option \<Rightarrow> bool" where
  "confident c = (case c of None \<Rightarrow> False | Some k \<Rightarrow> gt (culprit.confidence k) (lit 0.5))"

definition generate_decision :: "culprit option \<Rightarrow> drift_result \<Rightarrow> decision" where
  "generate_decision c drift =
     (let actions =
            (if confident c
             then [''Roll back '' @ interpolate (culprit.version (the c)) @ '' immediately'',
                   ''Verify pricing lookup cache'']
             else [''Initiate cross-service telemetry audit'',
                   ''Monitor transaction success rates''])
      in \<lparr>verdict = (if confident c then ''CAUSAL_LINK_CONFIRMED''
                      else ''ANOMALY_DETECTED_UNCLEAR_CAUSE''),
          recommended_actions = actions,
          decision.confidence =
            (case c of None \<Rightarrow> Fin 0 | Some k \<Rightarrow> or_zero (culprit.confidence k))\<rparr>)"

section \<open>Reasoning trace and report\<close>

text \<open>\<^verbatim>\<open>parts.join(sep)\<close> on lists of characters or pieces.\<close>

fun join_with :: "'a list \<Rightarrow> 'a list list \<Rightarrow> 'a list" where
  "join_with sep [] = []"
| "join_with sep [x] = x"
| "join_with sep (x # y # rest) = x @ sep @ join_with sep (y # rest)"

text \<open>
  Rendered text is kept as a list of pieces: literal characters, and numbers together with
  the built-in that renders them (\<^verbatim>\<open>toFixed\<close>, \<^verbatim>\<open>toLocaleString\<close>, the
  conversion of a template literal, \<^verbatim>\<open>toISOString\<close> of an instant). The digits a
  built-in writes are outside the source.
\<close>

datatype piece = Lit string | Fixed nat num | Locale num | Shown num | Iso int

type_synonym rendered = "piece list"

datatype js_value = Str rendered | Num num

record trace_step =
  step :: string
  evidence :: "(string \<times> js_value) list"

definition buildReasoningTrace ::
    "drift_result \<Rightarrow> culprit option \<Rightarrow> num \<Rightarrow> nat \<Rightarrow> nat \<Rightarrow> forecast \<Rightarrow> decision \<Rightarrow> trace_step list" where
  "buildReasoningTrace drift c loss failedTransactions churnCount fc dec =
     [\<lparr>step = ''Detect (ES|QL)'',
       evidence =
         [(''drift_factor'', Str [Fixed 1 (drift_result.driftFactor drift), Lit ''x'']),
          (''statistical_significance'', Str [Lit (statistical_significance drift)]),
          (''z_score'', Num (zScore drift))]\<rparr>,
      \<lparr>step = ''Investigate (Deployments)'',
       evidence =
         [(''candidate_deployments'', Num (case c of None \<Rightarrow> Fin 0 | Some k \<Rightarrow> Fin 1)),
          (''selected_culprit'',
             Str [Lit (case c of None \<Rightarrow> ''None''
                       | Some k \<Rightarrow> (case culprit.version k of None \<Rightarrow> ''None''
                                    | Some v \<Rightarrow> if v = [] then ''None'' else v))]),
          (''causal_confidence'',
             Str [Fixed 1 (case c of None \<Rightarrow> Fin 0
                           | Some k \<Rightarrow> or_zero (fmul (culprit.confidence k) (Fin 100))),
                  Lit ''%''])]\<rparr>,
      \<lparr>step = ''Correlate (Transactions)'',
       evidence =
         [(''failed_payments'', Num (count failedTransactions)),
          (''correlation_window'', Str [Lit ''Spike Start to Now''])]\<rparr>,
      \<lparr>step = ''Correlate (Churn)'',
       evidence =
         [(''churn_escalations'', Num (count churnCount)),
          (''signal_alignment'', Str [Lit ''Moderate-High''])]\<rparr>,
      \<lparr>step = ''Quantify (Impact)'',
       evidence =
         [(''observed_loss'', Str [Lit ''$'', Locale (observed_loss fc)]),
          (''protected_arr'', Str [Lit ''$'', Locale (protected_arr fc)])]\<rparr>,
      \<lparr>step = ''Decide (Autonomous)'',
       evidence =
         [(''verdict'', Str [Lit (verdict dec)]),
          (''actions'', Str [Lit (join_with '', '' (recommended_actions dec))])]\<rparr>]"

text \<open>
  What the handler reads besides the record collections: the Elasticsearch switch and
  probe, and the system clock, read once by \<^verbatim>\<open>Date.now()\<close> and once by
  \<^verbatim>\<open>new Date()\<close> (milliseconds since the epoch).
\<close>

record environment =
  es_required :: bool
  es_available :: bool
  clock_now :: int
  clock_date :: int

record request =
  req_service :: "string option"
  req_query :: "string option"

record metadata =
  meta_id :: rendered
  meta_service :: string
  meta_query :: string
  meta_timestamp :: rendered
  meta_role :: string

record measurable_impact =
  time_saved :: string
  manual_steps_removed :: nat
  potential_arr_protected :: num

record financial_impact =
  impact_observed_loss :: num
  failed_transactions :: nat
  correlated_churn_events :: nat
  arr_risk :: num

record reasoning_trace =
  steps :: "trace_step list"
  trace_confidence :: num
  mode :: string

record reasoning_step =
  step_name :: string
  delta :: rendered

record report =
  report_metadata :: metadata
  report_measurable_impact :: measurable_impact
  report_verdict :: string
  report_culprit :: "culprit option"
  report_financial_impact :: financial_impact
  report_reasoning_trace :: reasoning_trace
  reasoning_steps :: "reasoning_step list"
  executive_summary :: rendered
  report_recommended_actions :: "string list"
  confidence_score :: num

datatype response = Status503 string string | Status200 report

text \<open>\<^verbatim>\<open>req.body.x || dflt\<close>: a missing or empty string gives the default.\<close>

definition or_default :: "string option \<Rightarrow> string \<Rightarrow> string" where
  "or_default v dflt = (case v of None \<Rightarrow> dflt | Some s \<Rightarrow> if s = [] then dflt else s)"

text \<open>The candidate built for one deployment in step 2 of the handler.\<close>

definition candidate_of :: "date_parser \<Rightarrow> invoice list \<Rightarrow> string \<Rightarrow> event \<Rightarrow> culprit" where
  "candidate_of parse invoices svc dep =
     (let conf = computeConfidence parse invoices svc (timestamp dep)
      in \<lparr>timestamp = timestamp dep,
          culprit.version = event.version dep,
          culprit.confidence = confidence_result.confidence conf,
          culprit.classification = confidence_result.classification conf,
          culprit.spikeStart = confidence_result.spikeStart conf\<rparr>)"

text \<open>The comparator \<^verbatim>\<open>(a, b) => b.confidence - a.confidence\<close>.\<close>

definition by_confidence :: "culprit \<Rightarrow> culprit \<Rightarrow> num" where
  "by_confidence a b = fsub (culprit.confidence b) (culprit.confidence a)"

text \<open>\<^verbatim>\<open>xs[0]\<close>, undefined on the empty array.\<close>

definition first_of :: "'a list \<Rightarrow> 'a option" where
  "first_of xs = (case xs of [] \<Rightarrow> None | x # _ \<Rightarrow> Some x)"

definition select_culprit :: "date_parser \<Rightarrow> invoice list \<Rightarrow> string \<Rightarrow> event list \<Rightarrow> culprit option" where
  "select_culprit parse invoices svc events =
     (let history = get_deployment_history svc events;
          deploymentsWithConfidence = map (candidate_of parse invoices svc) history
      in first_of (sort_cmp by_confidence deploymentsWithConfidence))"

definition value_text :: "js_value \<Rightarrow> rendered" where
  "value_text v = (case v of Str t \<Rightarrow> t | Num n \<Rightarrow> [Shown n])"

definition summary_of ::
    "string \<Rightarrow> culprit option \<Rightarrow> drift_result \<Rightarrow> num \<Rightarrow> nat \<Rightarrow> nat \<Rightarrow> rendered" where
  "summary_of svc c drift loss failedTransactions churnCount =
     (if confident c
      then [Lit (''['' @ svc @ ''] Autonomous investigation confirmed a ''
                 @ culprit.classification (the c) @ '' between the ''
                 @ interpolate (culprit.version (the c))
                 @ '' deployment and the revenue leak initiated on ''
                 @ interpolate (culprit.spikeStart (the c)) @ ''. Observed $''),
            Fixed 2 loss, Lit '' in losses with '', Shown (count failedTransactions),
            Lit '' correlated transaction failures and a '', Shown (count churnCount),
            Lit ''-event churn spike. Drift factor: '',
            Shown (drift_result.driftFactor drift), Lit ''x.'']
      else [Lit (''['' @ svc @ ''] Multi-signal analysis indicates statistical drift factor of ''),
            Shown (drift_result.driftFactor drift), Lit ''x with $'', Fixed 2 loss,
            Lit '' in observed losses. No primary deployment culprit identified with high confidence. '',
            Shown (count failedTransactions), Lit '' failed transactions and '',
            Shown (count churnCount),
            Lit '' churn events detected. Recommendations: Audit secondary service dependencies.''])"

text \<open>
  The handler of \<^verbatim>\<open>POST /api/agent/analyze\<close>. Its writes to the in-memory agent log and
  to \<open>lastReasoningTrace\<close> come after the report is built and are left out. The dash in
  the 503 message is an em dash in the source.
\<close>

definition analyze ::
    "date_parser \<Rightarrow> environment \<Rightarrow> request \<Rightarrow> invoice list \<Rightarrow> event list
      \<Rightarrow> transaction list \<Rightarrow> churn_event list \<Rightarrow> response" where
  "analyze parse env req invoices events transactions churn =
     (if es_required env \<and> \<not> es_available env
      then Status503 ''LIMITED_MODE''
             ''Live telemetry unavailable - analysis downgraded (ES REQUIRED)''
      else
        let svc = or_default (req_service req) ''billing-service'';
            userQuery = or_default (req_query req) [];
            serviceInvoices = filter (\<lambda>iv. service iv = svc) invoices;
            drift = get_anomaly_stats serviceInvoices;
            start = findSpikeStart (dailyDrift drift) (Fin 2);
            c = select_culprit parse invoices svc events;
            failedTransactions = get_transaction_failures transactions start;
            churnCount = get_churn_risk churn start;
            loss = total_loss serviceInvoices;
            fc = forecast_loss loss;
            dec = generate_decision c drift;
            trace = buildReasoningTrace drift c loss failedTransactions churnCount fc dec
        in Status200
             \<lparr>report_metadata =
                \<lparr>meta_id = [Lit ''AGENT-ANALYTIC-'', Shown (Fin (real_of_int (clock_now env)))],
                 meta_service = svc,
                 meta_query = userQuery,
                 meta_timestamp = [Iso (clock_date env)],
                 meta_role = ''Revenue Incident Response Agent''\<rparr>,
              report_measurable_impact =
                \<lparr>time_saved = ''4 hours -> 40 seconds'',
                 manual_steps_removed = 6,
                 potential_arr_protected = protected_arr fc\<rparr>,
              report_verdict = verdict dec,
              report_culprit = c,
              report_financial_impact =
                \<lparr>impact_observed_loss = loss,
                 failed_transactions = failedTransactions,
                 correlated_churn_events = churnCount,
                 arr_risk = annualized_risk fc\<rparr>,
              report_reasoning_trace =
                \<lparr>steps = trace,
                 trace_confidence = decision.confidence dec,
                 mode = (if es_available env then ''LIVE_ES'' else ''FALLBACK'')\<rparr>,
              reasoning_steps =
                map (\<lambda>t. \<lparr>step_name = step t,
                            delta = join_with [Lit '', '']
                                      (map (\<lambda>(k, v). Lit k # Lit '': '' # value_text v)
                                         (evidence t))\<rparr>)
                  trace,
              executive_summary = summary_of svc c drift loss failedTransactions churnCount,
              report_recommended_actions = recommended_actions dec,
              confidence_score = decision.confidence dec\<rparr>)"

section \<open>A reference parser for ISO-8601 instants\<close>

text \<open>
  \<open>iso_parse\<close> reads the two forms the data set uses, \<^verbatim>\<open>YYYY-MM-DD\<close> and
  \<^verbatim>\<open>YYYY-MM-DDTHH:MM:SS.sssZ\<close> (the fraction optional), as UTC, and rejects everything
  else. It stands in for \<^verbatim>\<open>new Date\<close> where an example needs concrete dates.
\<close>

definition digit_of :: "char \<Rightarrow> nat option" where
  "digit_of c = (let n = of_char c in if (48::nat) \<le> n \<and> n \<le> 57 then Some (n - 48) else None)"

fun number_of :: "nat \<Rightarrow> string \<Rightarrow> nat option" where
  "number_of acc [] = Some acc"
| "number_of acc (c # cs) =
     (case digit_of c of None \<Rightarrow> None | Some d \<Rightarrow> number_of (10 * acc + d) cs)"

definition is_leap :: "nat \<Rightarrow> bool" where
  "is_leap y = (y mod 4 = 0 \<and> (y mod 100 \<noteq> 0 \<or> y mod 400 = 0))"

definition month_length :: "nat \<Rightarrow> nat \<Rightarrow> nat" where
  "month_length y m =
     (if m = 2 then (if is_leap y then 29 else 28)
      else if m = 4 \<or> m = 6 \<or> m = 9 \<or> m = 11 then 30 else 31)"

text \<open>Days from 1970-01-01 to the given civil date (proleptic Gregorian calendar).\<close>

definition days_from_civil :: "nat \<Rightarrow> nat \<Rightarrow> nat \<Rightarrow> int" where
  "days_from_civil y m d =
     (let y' = int y - (if m \<le> 2 then 1 else 0);
          era = y' div 400;
          yoe = y' - era * 400;
          mp = (if m > 2 then int m - 3 else int m + 9);
          doy = (153 * mp + 2) div 5 + int d - 1;
          doe = yoe * 365 + yoe div 4 - yoe div 100 + doy
      in era * 146097 + doe - 719468)"

definition parse_date :: "string \<Rightarrow> int option" where
  "parse_date s =
     (if length s = 10 \<and> s ! 4 = CHR ''-'' \<and> s ! 7 = CHR ''-''
      then (case (number_of 0 (take 4 s), number_of 0 (take 2 (drop 5 s)),
                  number_of 0 (take 2 (drop 8 s))) of
              (Some y, Some m, Some d) \<Rightarrow>
                if 1 \<le> m \<and> m \<le> 12 \<and> 1 \<le> d \<and> d \<le> month_length y m
                then Some (days_from_civil y m d) else None
            | _ \<Rightarrow> None)
      else None)"

definition parse_time :: "string \<Rightarrow> int option" where
  "parse_time s =
     (if length s = 8 \<and> s ! 2 = CHR '':'' \<and> s ! 5 = CHR '':''
      then (case (number_of 0 (take 2 s), number_of 0 (take 2 (drop 3 s)),
                  number_of 0 (take 2 (drop 6 s))) of
              (Some h, Some mi, Some sec) \<Rightarrow>
                if h \<le> 23 \<and> mi \<le> 59 \<and> sec \<le> 59
                then Some (int (1000 * (3600 * h + 60 * mi + sec))) else None
            | _ \<Rightarrow> None)
      else None)"

definition parse_fraction :: "string \<Rightarrow> int option" where
  "parse_fraction s =
     (if s = ''Z'' then Some 0
      else if length s = 5 \<and> s ! 0 = CHR ''.'' \<and> s ! 4 = CHR ''Z''
      then map_option int (number_of 0 (take 3 (drop 1 s)))
      else None)"

definition iso_parse :: date_parser where
  "iso_parse s =
     (if length s = 10 then map_option (\<lambda>d. d * 86400000) (parse_date s)
      else if length s > 19 \<and> s ! 10 = CHR ''T''
      then (case (parse_date (take 10 s), parse_time (take 8 (drop 11 s)),
                  parse_fraction (drop 19 s)) of
              (Some d, Some t, Some f) \<Rightarrow> Some (d * 86400000 + t + f)
            | _ \<Rightarrow> None)
      else None)"

section \<open>Orders on labels, and example data\<close>

text \<open>The order NOISE < MODERATE < HIGH_SIGNAL of the significance tiers.\<close>

definition tier_rank :: "string \<Rightarrow> nat" where
  "tier_rank t = (if t = ''HIGH_SIGNAL'' then 2 else if t = ''MODERATE'' then 1 else 0)"

definition mk_invoice :: "string \<Rightarrow> string \<Rightarrow> real \<Rightarrow> real \<Rightarrow> invoice" where
  "mk_invoice ts svc expected billed =
     \<lparr>timestamp = ts, service = svc, amountExpected = Fin expected, amountBilled = Fin billed\<rparr>"

definition mk_deployment :: "string \<Rightarrow> string \<Rightarrow> string \<Rightarrow> event" where
  "mk_deployment ts svc v =
     \<lparr>timestamp = ts, service = svc, eventType = ''deployment'', event.version = Some v\<rparr>"

text \<open>One baseline day with one anomaly in three invoices, then one anomalous invoice.\<close>

definition invoices_rise :: "invoice list" where
  "invoices_rise =
     [mk_invoice ''2026-02-01T08:00:00.000Z'' ''billing-service'' 100 90,
      mk_invoice ''2026-02-01T09:00:00.000Z'' ''billing-service'' 100 100,
      mk_invoice ''2026-02-01T10:00:00.000Z'' ''billing-service'' 100 100,
      mk_invoice ''2026-02-11T08:00:00.000Z'' ''billing-service'' 100 90]"

text \<open>One anomalous invoice on a baseline day, then one correct invoice.\<close>

definition invoices_fall :: "invoice list" where
  "invoices_fall =
     [mk_invoice ''2026-02-01T08:00:00.000Z'' ''billing-service'' 100 90,
      mk_invoice ''2026-02-11T08:00:00.000Z'' ''billing-service'' 100 100]"

text \<open>A single anomalous invoice after the baseline period.\<close>

definition invoices_late :: "invoice list" where
  "invoices_late = [mk_invoice ''2026-02-15T08:00:00.000Z'' ''billing-service'' 100 90]"

text \<open>
  Two invoices before the deployment instant \<open>deploy_mid\<close> (one anomalous) and three after
  it (one anomalous), all after the baseline period.
\<close>

definition invoices_mixed :: "invoice list" where
  "invoices_mixed =
     [mk_invoice ''2026-02-15T08:00:00.000Z'' ''billing-service'' 100 90,
      mk_invoice ''2026-02-15T09:00:00.000Z'' ''billing-service'' 100 100,
      mk_invoice ''2026-02-17T08:00:00.000Z'' ''billing-service'' 100 90,
      mk_invoice ''2026-02-17T09:00:00.000Z'' ''billing-service'' 100 100,
      mk_invoice ''2026-02-17T10:00:00.000Z'' ''billing-service'' 100 100]"

definition deploy_mid :: string where
  "deploy_mid = ''2026-02-16T00:00:00.000Z''"

text \<open>One underbilled, one correct and one heavily overbilled invoice.\<close>

definition invoices_over :: "invoice list" where
  "invoices_over =
     [mk_invoice ''2026-02-15T08:00:00.000Z'' ''billing-service'' 100 50,
      mk_invoice ''2026-02-15T09:00:00.000Z'' ''billing-service'' 100 100,
      mk_invoice ''2026-02-15T10:00:00.000Z'' ''billing-service'' 100 1050]"

text \<open>One invoice billed at half its amount, and a deployment dated a week after the data set ends.\<close>

definition invoices_half :: "invoice list" where
  "invoices_half = [mk_invoice ''2026-02-15T08:00:00.000Z'' ''billing-service'' 100 50]"

definition events_future :: "event list" where
  "events_future = [mk_deployment ''2026-02-28T23:59:59Z'' ''billing-service'' ''v9.9.9'']"

text \<open>Deployments of the billing service on the day of \<open>invoices_late\<close> and on the spike day of \<open>invoices_rise\<close>.\<close>

definition events_late :: "event list" where
  "events_late = [mk_deployment ''2026-02-15T00:00:00.000Z'' ''billing-service'' ''v1.0.4'']"

definition events_rise :: "event list" where
  "events_rise = [mk_deployment ''2026-02-11T00:00:00.000Z'' ''billing-service'' ''v1.0.4'']"

text \<open>An environment without Elasticsearch whose clock reads \<open>t\<close>, and a request with an empty body.\<close>

definition env_at :: "int \<Rightarrow> environment" where
  "env_at t = \<lparr>es_required = False, es_available = False, clock_now = t, clock_date = t\<rparr>"

definition empty_request :: request where
  "empty_request = \<lparr>req_service = None, req_query = None\<rparr>"

section \<open>Rounding to the nearest double\<close>

lemmas rnd_eval = rnd_def mag_def rne_def expo_def ilog2_def pow2_def compute_floorlog Let_def

lemma pow2_powr: "pow2 e = 2 powr (real_of_int e)"
proof (cases "e \<ge> 0")
  case True
  then obtain n where e: "e = int n" using nonneg_int_cases by blast
  have "(2::real) powr real n = 2 ^ n" by (rule powr_realpow) simp
  then show ?thesis unfolding e by (simp add: pow2_def)
next
  case False
  then obtain n where e: "e = - int n" and n: "0 < n"
    by (metis neg_int_cases not_le)
  have "(2::real) powr real n = 2 ^ n" by (rule powr_realpow) simp
  then have "2 powr (- real n) = 1 / 2 ^ n" by (simp add: powr_minus_divide)
  then show ?thesis unfolding e using n by (simp add: pow2_def)
qed

lemma pow2_pos: "0 < pow2 e"
  by (simp add: pow2_powr)

lemma pow2_add: "pow2 (a + b) = pow2 a * pow2 b"
  by (simp add: pow2_powr powr_add)

lemma pow2_le_iff: "pow2 a \<le> pow2 b \<longleftrightarrow> a \<le> b"
  by (simp add: pow2_powr)

lemma pow2_less_iff: "pow2 a < pow2 b \<longleftrightarrow> a < b"
  by (simp add: pow2_powr)

lemma pow2_nat: "pow2 (int n) = 2 ^ n"
  by (simp add: pow2_def)

lemma real_pow2_le: "(2::nat) ^ k \<le> n \<Longrightarrow> (2::real) ^ k \<le> real n"
  using of_nat_mono[of "2 ^ k" n, where 'a = real] by simp

lemma real_le_pow2: "n \<le> (2::nat) ^ k \<Longrightarrow> real n \<le> (2::real) ^ k"
  using of_nat_mono[of n "2 ^ k", where 'a = real] by simp

lemma ilog2_bounds:
  assumes "0 < a"
  shows "pow2 (ilog2 a) \<le> a \<and> a < pow2 (ilog2 a + 1)"
proof (cases "a \<ge> 1")
  case True
  define n where "n = nat \<lfloor>a\<rfloor>"
  have n1: "0 < n" using True by (simp add: n_def)
  from n1 obtain k where k: "floorlog 2 n = Suc k"
    by (cases "floorlog 2 n") (auto simp: floorlog_eq_zero_iff)
  have b: "2 ^ k \<le> n" "n < 2 ^ Suc k"
    using floorlog_bounds[of n 2] n1 k by auto
  have fl: "of_int \<lfloor>a\<rfloor> \<le> a" "a < of_int \<lfloor>a\<rfloor> + 1" by linarith+
  have rn: "real n = of_int \<lfloor>a\<rfloor>" using True by (simp add: n_def)
  have na: "real n \<le> a" "a < real n + 1" using fl unfolding rn by simp_all
  have i: "ilog2 a = int k" using True k by (simp add: ilog2_def n_def)
  have "(2::real) ^ k \<le> real n" using b(1) by (rule real_pow2_le)
  then have lo: "2 ^ k \<le> a" using na(1) by linarith
  have "n + 1 \<le> 2 ^ Suc k" using b(2) by simp
  then have "real (n + 1) \<le> 2 ^ Suc k" by (rule real_le_pow2)
  then have "real n + 1 \<le> 2 ^ Suc k" by simp
  then have hi: "a < 2 ^ Suc k" using na(2) by linarith
  have "int k + 1 = int (Suc k)" by simp
  then show ?thesis unfolding i using lo hi by (simp only: pow2_nat)
next
  case False
  then have a1: "a < 1" by simp
  define n where "n = nat \<lceil>1 / a\<rceil>"
  have "1 < 1 / a" using assms a1 by simp
  then have c2: "2 \<le> \<lceil>1 / a\<rceil>" by linarith
  then have n2: "2 \<le> n" unfolding n_def by linarith
  then have m1: "0 < n - 1" by simp
  from m1 obtain k where k: "floorlog 2 (n - 1) = Suc k"
    by (cases "floorlog 2 (n - 1)") (auto simp: floorlog_eq_zero_iff)
  have b: "2 ^ k \<le> n - 1" "n - 1 < 2 ^ Suc k"
    using floorlog_bounds[of "n - 1" 2] m1 k by auto
  have i: "ilog2 a = - int (Suc k)" using False k by (simp add: ilog2_def n_def)
  have rn: "real n = real_of_int \<lceil>1 / a\<rceil>" using c2 by (simp add: n_def)
  have up: "1 / a \<le> real n" unfolding rn by linarith
  have dn: "real n - 1 < 1 / a" unfolding rn by linarith
  have "n \<le> 2 ^ Suc k" using b(2) by simp
  then have "real n \<le> 2 ^ Suc k" by (rule real_le_pow2)
  then have "1 / a \<le> 2 ^ Suc k" using up by linarith
  then have "1 \<le> 2 ^ Suc k * a" using assms by (simp add: field_simps)
  then have lo: "1 / 2 ^ Suc k \<le> a" by (simp add: field_simps)
  have "(2::real) ^ k \<le> real (n - 1)" using b(1) by (rule real_pow2_le)
  moreover have "real (n - 1) = real n - 1" using n2 by (simp add: of_nat_diff)
  ultimately have "2 ^ k \<le> real n - 1" by linarith
  then have "2 ^ k < 1 / a" using dn by linarith
  then have "2 ^ k * a < 1" using assms by (simp add: field_simps)
  then have hi: "a < 1 / 2 ^ k" by (simp add: field_simps)
  have p1: "pow2 (- int (Suc k)) = 1 / 2 ^ Suc k"
    by (simp add: pow2_def nat_add_distrib)
  have "- int (Suc k) + 1 = - int k" by simp
  then have p2: "pow2 (- int (Suc k) + 1) = 1 / 2 ^ k"
    by (simp only: pow2_def) simp
  show ?thesis unfolding i p1 p2 using lo hi by simp
qed

lemma ilog2_unique:
  assumes "pow2 e \<le> a" and "a < pow2 (e + 1)"
  shows "ilog2 a = e"
proof -
  have a0: "0 < a" using assms(1) pow2_pos[of e] by simp
  note b = ilog2_bounds[OF a0]
  have "pow2 e < pow2 (ilog2 a + 1)" using assms(1) b by simp
  then have 1: "e < ilog2 a + 1" by (simp only: pow2_less_iff)
  have "pow2 (ilog2 a) < pow2 (e + 1)" using assms(2) b by simp
  then have 2: "ilog2 a < e + 1" by (simp only: pow2_less_iff)
  show ?thesis using 1 2 by simp
qed

lemma ilog2_mono:
  assumes "0 < a" and "a \<le> b"
  shows "ilog2 a \<le> ilog2 b"
proof -
  have b0: "0 < b" using assms by simp
  have "pow2 (ilog2 a) < pow2 (ilog2 b + 1)"
    using ilog2_bounds[OF assms(1)] ilog2_bounds[OF b0] assms(2) by simp
  then show ?thesis by (simp only: pow2_less_iff)
qed

lemma expo_mono: "0 < a \<Longrightarrow> a \<le> b \<Longrightarrow> expo a \<le> expo b"
  using ilog2_mono[of a b] by (simp add: expo_def)

lemma rne_mono:
  assumes "t \<le> u"
  shows "rne t \<le> rne u"
proof (cases "\<lfloor>t\<rfloor> = \<lfloor>u\<rfloor>")
  case True
  have "t - of_int \<lfloor>t\<rfloor> \<le> u - of_int \<lfloor>u\<rfloor>" using assms True by simp
  then show ?thesis using True by (auto simp: rne_def Let_def)
next
  case False
  then have "\<lfloor>t\<rfloor> < \<lfloor>u\<rfloor>" using floor_mono[OF assms] by simp
  moreover have "rne t \<le> \<lfloor>t\<rfloor> + 1" by (simp add: rne_def Let_def)
  moreover have "\<lfloor>u\<rfloor> \<le> rne u" by (simp add: rne_def Let_def)
  ultimately show ?thesis by simp
qed

lemma rne_of_int: "rne (of_int n) = n"
  by (simp add: rne_def)

lemma rne_cases:
  "(t - of_int \<lfloor>t\<rfloor> \<le> 1 / 2 \<and> rne t = \<lfloor>t\<rfloor>) \<or>
   (t - of_int \<lfloor>t\<rfloor> \<ge> 1 / 2 \<and> rne t = \<lfloor>t\<rfloor> + 1)"
  by (simp add: rne_def Let_def)

lemma rne_error: "\<bar>of_int (rne t) - t\<bar> \<le> 1 / 2"
proof -
  have b: "of_int \<lfloor>t\<rfloor> \<le> t" "t < of_int \<lfloor>t\<rfloor> + 1" by linarith+
  from rne_cases[of t] show ?thesis
  proof
    assume "t - of_int \<lfloor>t\<rfloor> \<le> 1 / 2 \<and> rne t = \<lfloor>t\<rfloor>"
    then show ?thesis using b by simp
  next
    assume a: "t - of_int \<lfloor>t\<rfloor> \<ge> 1 / 2 \<and> rne t = \<lfloor>t\<rfloor> + 1"
    then have "of_int (rne t) = of_int \<lfloor>t\<rfloor> + (1::real)" by simp
    then show ?thesis using a b by linarith
  qed
qed

lemma expo_ge_ilog2: "ilog2 a \<le> expo a"
  by (simp add: expo_def)

lemma pow2_split: "pow2 (e + 1) = 2 ^ 53 * pow2 (e - 52)"
proof -
  have "e + 1 = 53 + (e - 52)" by simp
  then have "pow2 (e + 1) = pow2 53 * pow2 (e - 52)" by (simp only: pow2_add)
  moreover have "pow2 53 = 2 ^ 53" by (simp add: pow2_def)
  ultimately show ?thesis by simp
qed

lemma pow2_split52: "pow2 e = 2 ^ 52 * pow2 (e - 52)"
proof -
  have "e = 52 + (e - 52)" by simp
  then have "pow2 e = pow2 52 * pow2 (e - 52)" by (metis pow2_add)
  moreover have "pow2 52 = 2 ^ 52" by (simp add: pow2_def)
  ultimately show ?thesis by simp
qed

lemma rne_nonneg: "0 \<le> t \<Longrightarrow> 0 \<le> rne t"
  using rne_mono[of 0 t] rne_of_int[of 0] by simp

lemma mag_nonneg: "0 < a \<Longrightarrow> 0 \<le> mag a"
proof -
  assume "0 < a"
  then have "0 \<le> a / pow2 (expo a - 52)" using pow2_pos[of "expo a - 52"] by simp
  then have "0 \<le> rne (a / pow2 (expo a - 52))" by (rule rne_nonneg)
  then show ?thesis using pow2_pos[of "expo a - 52"] by (simp add: mag_def)
qed

lemma mag_upper:
  assumes "0 < a"
  shows "mag a \<le> pow2 (expo a + 1)"
proof -
  define q where "q = pow2 (expo a - 52)"
  have q: "0 < q" by (simp add: q_def pow2_pos)
  have "a < pow2 (ilog2 a + 1)" using ilog2_bounds[OF assms] by simp
  also have "\<dots> \<le> pow2 (expo a + 1)" using expo_ge_ilog2[of a] by (simp add: pow2_le_iff)
  also have "\<dots> = 2 ^ 53 * q" unfolding q_def by (rule pow2_split)
  finally have "a / q \<le> 2 ^ 53" using q by (simp add: field_simps)
  then have "rne (a / q) \<le> rne (2 ^ 53)" by (rule rne_mono)
  moreover have "rne (2 ^ 53) = 2 ^ 53" using rne_of_int[of "2 ^ 53"] by simp
  ultimately have "real_of_int (rne (a / q)) \<le> 2 ^ 53" by (metis of_int_le_iff of_int_numeral of_int_power)
  then have "real_of_int (rne (a / q)) * q \<le> 2 ^ 53 * q" using q by simp
  then show ?thesis unfolding mag_def q_def[symmetric] pow2_split[of "expo a", folded q_def] .
qed

lemma mag_lower:
  assumes "0 < a" and "- 1022 \<le> ilog2 a"
  shows "pow2 (expo a) \<le> mag a"
proof -
  define q where "q = pow2 (expo a - 52)"
  have q: "0 < q" by (simp add: q_def pow2_pos)
  have e: "expo a = ilog2 a" using assms(2) by (simp add: expo_def)
  have "2 ^ 52 * q = pow2 (expo a)" unfolding q_def by (rule pow2_split52[symmetric])
  also have "\<dots> \<le> a" unfolding e using ilog2_bounds[OF assms(1)] by simp
  finally have "2 ^ 52 \<le> a / q" using q by (simp add: field_simps)
  then have "rne (2 ^ 52) \<le> rne (a / q)" by (rule rne_mono)
  moreover have "rne (2 ^ 52) = 2 ^ 52" using rne_of_int[of "2 ^ 52"] by simp
  ultimately have "2 ^ 52 \<le> real_of_int (rne (a / q))" by (metis of_int_le_iff of_int_numeral of_int_power)
  then have "2 ^ 52 * q \<le> real_of_int (rne (a / q)) * q" using q by simp
  then show ?thesis unfolding mag_def q_def[symmetric] pow2_split52[of "expo a", folded q_def] .
qed

lemma mag_mono:
  assumes "0 < a" and "a \<le> b"
  shows "mag a \<le> mag b"
proof (cases "expo a = expo b")
  case True
  define q where "q = pow2 (expo b - 52)"
  have q: "0 < q" by (simp add: q_def pow2_pos)
  have "a / q \<le> b / q" using assms(2) q by (simp add: divide_right_mono)
  then have "rne (a / q) \<le> rne (b / q)" by (rule rne_mono)
  then have "real_of_int (rne (a / q)) * q \<le> real_of_int (rne (b / q)) * q" using q by simp
  then show ?thesis unfolding mag_def True q_def[symmetric] .
next
  case False
  have b0: "0 < b" using assms by simp
  have lt: "expo a < expo b" using expo_mono[OF assms] False by simp
  have "- 1022 \<le> expo a" by (simp add: expo_def)
  then have "- 1022 < expo b" using lt by simp
  then have n: "- 1022 \<le> ilog2 b" by (simp add: expo_def max_def split: if_splits)
  have "mag a \<le> pow2 (expo a + 1)" by (rule mag_upper[OF assms(1)])
  also have "\<dots> \<le> pow2 (expo b)" using lt by (simp add: pow2_le_iff)
  also have "\<dots> \<le> mag b" by (rule mag_lower[OF b0 n])
  finally show ?thesis .
qed

lemma rnd_not_NaN: "rnd x \<noteq> NaN"
  by (simp add: rnd_def)

lemma rnd_zero: "rnd 0 = Fin 0"
  by (simp add: rnd_def)

lemma rnd_neg: "rnd (- x) = fneg (rnd x)"
  by (simp add: rnd_def)

lemma rnd_mono:
  assumes "x \<le> y"
  shows "le (rnd x) (rnd y)"
proof -
  consider "0 < x" | "x = 0" | "x < 0" "y < 0" | "x < 0" "y = 0" | "x < 0" "0 < y" by linarith
  then show ?thesis
  proof cases
    case 1
    then have y: "0 < y" using assms by simp
    have "mag x \<le> mag y" using 1 assms by (rule mag_mono)
    then show ?thesis using 1 y by (simp add: rnd_def)
  next
    case 2
    then show ?thesis using assms mag_nonneg[of y] by (simp add: rnd_def)
  next
    case 3
    have "mag (- y) \<le> mag (- x)" using 3 assms by (intro mag_mono) simp_all
    then show ?thesis using 3 by (simp add: rnd_def)
  next
    case 4
    then show ?thesis using mag_nonneg[of "- x"] by (simp add: rnd_def)
  next
    case 5
    then show ?thesis using mag_nonneg[of "- x"] mag_nonneg[of y] by (simp add: rnd_def)
  qed
qed

lemma rnd_grid:
  assumes "rnd x = Fin y"
  shows "\<exists>j::int. y = of_int j * pow2 (- 1074)"
proof -
  have g: "\<exists>j::int. mag a = of_int j * pow2 (- 1074)" for a
  proof -
    have e: "0 \<le> expo a + 1022" by (simp add: expo_def)
    have "expo a - 52 = (expo a + 1022) + (- 1074)" by simp
    then have "pow2 (expo a - 52) = pow2 (expo a + 1022) * pow2 (- 1074)" by (metis pow2_add)
    moreover have "pow2 (expo a + 1022) = of_int (2 ^ nat (expo a + 1022))"
      using e by (simp add: pow2_def)
    ultimately have "mag a = of_int (rne (a / pow2 (expo a - 52)) * 2 ^ nat (expo a + 1022)) * pow2 (- 1074)"
      by (simp add: mag_def)
    then show ?thesis by blast
  qed
  consider "x = 0" | "0 < x" | "x < 0" by linarith
  then show ?thesis
  proof cases
    case 1
    then have "y = 0" using assms by (simp add: rnd_def)
    then show ?thesis by (intro exI[of _ 0]) simp
  next
    case 2
    then have "y = mag x" using assms by (simp add: rnd_def split: if_splits)
    then show ?thesis using g[of x] by simp
  next
    case 3
    then have y: "y = - mag (- x)" using assms by (simp add: rnd_def split: if_splits)
    obtain j where "mag (- x) = of_int j * pow2 (- 1074)" using g[of "- x"] by blast
    then have "y = of_int (- j) * pow2 (- 1074)" using y by simp
    then show ?thesis by blast
  qed
qed

section \<open>The order of numbers\<close>

lemma le_refl_num: "x \<noteq> NaN \<Longrightarrow> le x x"
  by (cases x) simp_all

lemma le_trans_num: "le a b \<Longrightarrow> le b c \<Longrightarrow> le a c"
  by (cases a; cases b; cases c) simp_all

lemma lt_imp_le: "lt a b \<Longrightarrow> le a b"
  by (cases a; cases b) simp_all

lemma le_lt_trans_num: "le a b \<Longrightarrow> lt b c \<Longrightarrow> lt a c"
  by (cases a; cases b; cases c) simp_all

lemma lt_le_trans_num: "lt a b \<Longrightarrow> le b c \<Longrightarrow> lt a c"
  by (cases a; cases b; cases c) simp_all

lemma le_not_lt: "le a b \<Longrightarrow> \<not> lt b a"
  by (cases a; cases b) simp_all

lemma le_total_num: "a \<noteq> NaN \<Longrightarrow> b \<noteq> NaN \<Longrightarrow> le a b \<or> lt b a"
  by (cases a; cases b) auto

lemma le_not_NaN: "le a b \<Longrightarrow> a \<noteq> NaN \<and> b \<noteq> NaN"
  by (cases a; cases b) simp_all

lemma lt_not_NaN: "lt a b \<Longrightarrow> a \<noteq> NaN \<and> b \<noteq> NaN"
  by (cases a; cases b) simp_all

lemma le_antisym_num: "le a b \<Longrightarrow> le b a \<Longrightarrow> a = b"
  by (cases a; cases b) simp_all

lemma lt_irrefl_num: "\<not> lt a a"
  by (cases a) simp_all

lemma le_PInf: "x \<noteq> NaN \<Longrightarrow> le x PInf"
  by (cases x) simp_all

lemma NInf_le: "x \<noteq> NaN \<Longrightarrow> le NInf x"
  by (cases x) simp_all

lemma le_fabs: "x \<noteq> NaN \<Longrightarrow> le x (fabs x)"
  by (cases x) simp_all

lemma fabs_nonneg: "le (Fin 0) x \<Longrightarrow> fabs x = x"
  by (cases x) simp_all

lemma between_Fin: "le (Fin lo) x \<Longrightarrow> le x (Fin hi) \<Longrightarrow> \<exists>v. x = Fin v \<and> lo \<le> v \<and> v \<le> hi"
  by (cases x) simp_all

lemma or_zero_id: "x \<noteq> NaN \<Longrightarrow> or_zero x = x"
  by (auto simp: or_zero_def)

lemma rnd_nonneg: "0 \<le> x \<Longrightarrow> le (Fin 0) (rnd x)"
  using rnd_mono[of 0 x] by (simp add: rnd_zero)

lemma rnd_nonpos: "x \<le> 0 \<Longrightarrow> le (rnd x) (Fin 0)"
  using rnd_mono[of x 0] by (simp add: rnd_zero)

lemma rnd_one: "rnd 1 = Fin 1"
  by (simp add: rnd_eval)

lemma rnd_minus_one: "rnd (- 1) = Fin (- 1)"
  by (simp add: rnd_eval)

text \<open>A positive multiple of the smallest subnormal is rounded to a positive number.\<close>

lemma rnd_least: "rnd (pow2 (- 1074)) = Fin (pow2 (- 1074))"
proof -
  have i: "ilog2 (pow2 (- 1074)) = - 1074"
    by (rule ilog2_unique) (simp_all add: pow2_less_iff)
  have e: "expo (pow2 (- 1074)) = - 1022" by (simp add: expo_def i)
  have "mag (pow2 (- 1074)) = of_int (rne (pow2 (- 1074) / pow2 (- 1074))) * pow2 (- 1074)"
    by (simp add: mag_def e)
  also have "pow2 (- 1074) / pow2 (- 1074) = real_of_int 1" using pow2_pos[of "- 1074"] by simp
  also have "rne (real_of_int 1) = 1" by (rule rne_of_int)
  finally have m: "mag (pow2 (- 1074)) = pow2 (- 1074)" by simp
  have "pow2 (- 1074) < 2 ^ 1024"
  proof -
    have "pow2 (- 1074) < pow2 1024" by (simp add: pow2_less_iff)
    then show ?thesis by (simp add: pow2_def)
  qed
  then show ?thesis using pow2_pos[of "- 1074"] by (simp add: rnd_def m)
qed

lemma rnd_positive: "pow2 (- 1074) \<le> x \<Longrightarrow> lt (Fin 0) (rnd x)"
proof -
  assume "pow2 (- 1074) \<le> x"
  then have "le (rnd (pow2 (- 1074))) (rnd x)" by (rule rnd_mono)
  then have "le (Fin (pow2 (- 1074))) (rnd x)" by (simp add: rnd_least)
  moreover have "lt (Fin 0) (Fin (pow2 (- 1074)))" using pow2_pos[of "- 1074"] by simp
  ultimately show ?thesis by (rule lt_le_trans_num[rotated])
qed

text \<open>The sign of a difference of two doubles survives rounding.\<close>

lemma fsub_sign:
  assumes "rnd u = Fin a" "rnd w = Fin b"
  shows "not_after (fsub (Fin b) (Fin a)) \<longleftrightarrow> b \<le> a"
proof (cases "b \<le> a")
  case True
  then have "le (rnd (b - a)) (Fin 0)" by (intro rnd_nonpos) simp
  then show ?thesis using True by (simp add: not_after_def fsub_def)
next
  case False
  obtain i :: int where i: "a = of_int i * pow2 (- 1074)" using rnd_grid[OF assms(1)] by blast
  obtain j :: int where j: "b = of_int j * pow2 (- 1074)" using rnd_grid[OF assms(2)] by blast
  have q: "0 < pow2 (- 1074)" by (rule pow2_pos)
  from False have "of_int i * pow2 (- 1074) < of_int j * pow2 (- 1074)" by (simp add: i j)
  then have "real_of_int i < real_of_int j" using q by (simp only: mult_less_cancel_right_pos)
  then have "i + 1 \<le> j" by simp
  then have "real_of_int (i + 1) \<le> real_of_int j" by (simp only: of_int_le_iff)
  then have "real_of_int (i + 1) * pow2 (- 1074) \<le> real_of_int j * pow2 (- 1074)"
    using q by (simp only: mult_le_cancel_right_pos)
  then have "pow2 (- 1074) \<le> b - a" by (simp add: i j algebra_simps)
  then have "lt (Fin 0) (rnd (b - a))" by (rule rnd_positive)
  then have "\<not> not_after (rnd (b - a))"
    using le_not_lt[of "rnd (b - a)" "Fin 0"] by (auto simp: not_after_def rnd_not_NaN)
  then show ?thesis using False by (simp add: fsub_def)
qed

section \<open>Decimal rounding\<close>

lemma decimal_round_nonneg: "0 \<le> x \<Longrightarrow> 0 \<le> decimal_round k x"
  by (simp add: decimal_round_def)

lemma decimal_round_nonpos: "x \<le> 0 \<Longrightarrow> decimal_round k x \<le> 0"
proof (cases "x < 0")
  case True
  then have "0 \<le> (- x) * 10 ^ k" by (intro mult_nonneg_nonneg) simp_all
  then have "0 \<le> (- x) * 10 ^ k + 1 / 2" by linarith
  then have "0 \<le> \<lfloor>(- x) * 10 ^ k + 1 / 2\<rfloor>" by (simp only: zero_le_floor of_int_0)
  then have "0 \<le> real_of_int \<lfloor>(- x) * 10 ^ k + 1 / 2\<rfloor> / 10 ^ k" by simp
  then show ?thesis using True by (simp add: decimal_round_def)
next
  case False
  assume "x \<le> 0"
  with False have "x = 0" by simp
  then show ?thesis by (simp add: decimal_round_def)
qed

lemma decimal_round_of_int: "decimal_round k (real_of_int n) = real_of_int n"
proof -
  have a: "\<lfloor>real_of_int m * 10 ^ k + 1 / 2\<rfloor> = m * 10 ^ k" for m :: int
  proof -
    have "real_of_int m * 10 ^ k + 1 / 2 = real_of_int (m * 10 ^ k) + 1 / 2" by simp
    also have "\<lfloor>\<dots>\<rfloor> = m * 10 ^ k" by (rule floor_unique) simp_all
    finally show ?thesis .
  qed
  show ?thesis
  proof (cases "real_of_int n < 0")
    case True
    have "- real_of_int n = real_of_int (- n)" by simp
    then have "\<lfloor>- real_of_int n * 10 ^ k + 1 / 2\<rfloor> = (- n) * 10 ^ k"
      using a[of "- n"] by simp
    then show ?thesis using True by (simp add: decimal_round_def)
  next
    case False
    then show ?thesis using a[of n] by (simp add: decimal_round_def)
  qed
qed

lemma decimal_round_mono: "x \<le> y \<Longrightarrow> decimal_round k x \<le> decimal_round k y"
proof -
  assume xy: "x \<le> y"
  have p: "(0::real) < 10 ^ k" by simp
  consider "x < 0" "y < 0" | "x < 0" "0 \<le> y" | "0 \<le> x" "0 \<le> y"
    using xy by fastforce
  then show ?thesis
  proof cases
    case 1
    have "(- y) * 10 ^ k + 1 / 2 \<le> (- x) * 10 ^ k + 1 / 2" using xy p by simp
    then have "\<lfloor>(- y) * 10 ^ k + 1 / 2\<rfloor> \<le> \<lfloor>(- x) * 10 ^ k + 1 / 2\<rfloor>" by (rule floor_mono)
    then have "real_of_int \<lfloor>(- y) * 10 ^ k + 1 / 2\<rfloor> / 10 ^ k \<le> real_of_int \<lfloor>(- x) * 10 ^ k + 1 / 2\<rfloor> / 10 ^ k"
      using p by (simp add: divide_right_mono)
    then show ?thesis using 1 by (simp add: decimal_round_def)
  next
    case 2
    have "decimal_round k x \<le> 0" using 2 by (intro decimal_round_nonpos) simp
    moreover have "0 \<le> decimal_round k y" using 2 by (intro decimal_round_nonneg)
    ultimately show ?thesis by simp
  next
    case 3
    have "x * 10 ^ k + 1 / 2 \<le> y * 10 ^ k + 1 / 2" using xy p by simp
    then have "\<lfloor>x * 10 ^ k + 1 / 2\<rfloor> \<le> \<lfloor>y * 10 ^ k + 1 / 2\<rfloor>" by (rule floor_mono)
    then have "real_of_int \<lfloor>x * 10 ^ k + 1 / 2\<rfloor> / 10 ^ k \<le> real_of_int \<lfloor>y * 10 ^ k + 1 / 2\<rfloor> / 10 ^ k"
      using p by (simp add: divide_right_mono)
    then show ?thesis using 3 by (simp add: decimal_round_def)
  qed
qed

lemma toFixed_not_NaN: "x \<noteq> NaN \<Longrightarrow> toFixed k x \<noteq> NaN"
  by (cases x) (simp_all add: rnd_not_NaN)

lemma toFixed_mono: "le a b \<Longrightarrow> le (toFixed k a) (toFixed k b)"
proof (cases a; cases b)
  fix x y assume "le a b" "a = Fin x" "b = Fin y"
  then show ?thesis by (simp add: rnd_mono decimal_round_mono)
qed (simp_all add: le_PInf NInf_le rnd_not_NaN)

lemma decimal_round_zero: "decimal_round k 0 = 0"
  by (simp add: decimal_round_def)

lemma toFixed_zero: "toFixed k (Fin 0) = Fin 0"
  by (simp add: decimal_round_zero rnd_zero)

lemma toFixed_one: "toFixed k (Fin 1) = Fin 1"
  using decimal_round_of_int[of k 1] by (simp add: rnd_one)

lemma toFixed_minus_one: "toFixed k (Fin (- 1)) = Fin (- 1)"
  using decimal_round_of_int[of k "- 1"] by (simp add: rnd_minus_one)

lemma toFixed_nonneg: "le (Fin 0) x \<Longrightarrow> le (Fin 0) (toFixed k x)"
  using toFixed_mono[of "Fin 0" x k] by (simp only: toFixed_zero)

lemma toFixed_lt_imp: "lt (toFixed k a) (toFixed k b) \<Longrightarrow> lt a b"
proof -
  assume l: "lt (toFixed k a) (toFixed k b)"
  then have n: "a \<noteq> NaN" "b \<noteq> NaN" using lt_not_NaN[OF l] by (cases a; cases b; simp)+
  show ?thesis
  proof (rule ccontr)
    assume "\<not> lt a b"
    then have "le b a" using le_total_num[OF n(2) n(1)] by blast
    then have "le (toFixed k b) (toFixed k a)" by (rule toFixed_mono)
    then show False using l le_not_lt by blast
  qed
qed

section \<open>Bounds through the arithmetic operations\<close>

lemma fadd_lower: "le (Fin a) x \<Longrightarrow> le (Fin c) y \<Longrightarrow> le (rnd (a + c)) (fadd x y)"
  by (cases x; cases y) (simp_all add: rnd_mono le_PInf rnd_not_NaN)

lemma fadd_upper: "le x (Fin b) \<Longrightarrow> le y (Fin d) \<Longrightarrow> le (fadd x y) (rnd (b + d))"
  by (cases x; cases y) (simp_all add: rnd_mono NInf_le rnd_not_NaN)

lemma fadd_nonneg: "le (Fin 0) x \<Longrightarrow> le (Fin 0) y \<Longrightarrow> le (Fin 0) (fadd x y)"
  using fadd_lower[of 0 x 0 y] by (simp add: rnd_zero)

lemma fmul_unit:
  assumes "le (Fin 0) x" "le x (Fin 1)" "0 \<le> w"
  shows "le (Fin 0) (fmul x (Fin w)) \<and> le (fmul x (Fin w)) (rnd w)"
proof -
  obtain v where v: "x = Fin v" "0 \<le> v" "v \<le> 1" using between_Fin[OF assms(1,2)] by blast
  have "0 \<le> v * w" using v assms(3) by simp
  moreover have "v * w \<le> w" using v assms(3) by (simp add: mult_left_le_one_le)
  ultimately show ?thesis using v by (simp add: rnd_nonneg rnd_mono)
qed

lemma fmul_nonneg: "le (Fin 0) x \<Longrightarrow> 0 < w \<Longrightarrow> le (Fin 0) (fmul x (Fin w))"
  by (cases x) (simp_all add: rnd_nonneg)

lemma fdiv_nonneg: "le (Fin 0) x \<Longrightarrow> 0 < w \<Longrightarrow> le (Fin 0) (fdiv x (Fin w))"
  by (cases x) (simp_all add: rnd_nonneg)

lemma fmin_upper: "x \<noteq> NaN \<Longrightarrow> le (fmin x (Fin c)) (Fin c)"
  by (cases x) (auto simp: fmin_def)

lemma fmin_lower: "le (Fin a) x \<Longrightarrow> a \<le> c \<Longrightarrow> le (Fin a) (fmin x (Fin c))"
  by (cases x) (auto simp: fmin_def)

lemma count_ratio:
  assumes "a \<le> t" "0 < t"
  shows "le (Fin 0) (fdiv (count a) (count t)) \<and> le (fdiv (count a) (count t)) (Fin 1)"
proof -
  have "0 \<le> real a / real t" by simp
  moreover have "real a / real t \<le> 1" using assms by simp
  ultimately have "le (Fin 0) (rnd (real a / real t))" "le (rnd (real a / real t)) (Fin 1)"
    using rnd_nonneg rnd_mono[of "real a / real t" 1] by (simp_all add: rnd_one)
  then show ?thesis using assms by (simp add: count_def)
qed

section \<open>Rounding a given real\<close>

text \<open>The double nearest to \<open>x\<close>, read off the binade \<open>[2^i, 2^(i+1))\<close> that holds \<open>x\<close>.\<close>

lemma rnd_at:
  assumes "pow2 i \<le> x" "x < pow2 (i + 1)"
    and "of_int (rne (x / pow2 (max i (- 1022) - 52))) * pow2 (max i (- 1022) - 52) = y"
    and "y < 2 ^ 1024"
  shows "rnd x = Fin y"
proof -
  have x: "0 < x" using pow2_pos[of i] assms(1) by linarith
  have "ilog2 x = i" using assms(1,2) by (rule ilog2_unique)
  then have "expo x = max i (- 1022)" by (simp add: expo_def)
  then have "mag x = y" using assms(3) by (simp add: mag_def)
  then show ?thesis using x assms(4) by (simp add: rnd_def)
qed

lemma rnd_overflow:
  assumes "2 ^ 1024 \<le> x"
  shows "rnd x = PInf"
proof -
  have p: "pow2 1024 = 2 ^ 1024" by (simp add: pow2_def)
  have x: "0 < x" using assms by (smt (verit) zero_less_power)
  have "ilog2 (pow2 1024) = 1024" by (rule ilog2_unique) (simp_all add: pow2_less_iff)
  then have i: "1024 \<le> ilog2 x"
    using ilog2_mono[of "pow2 1024" x] assms pow2_pos[of 1024] by (simp add: p)
  then have e: "expo x = ilog2 x" by (simp add: expo_def)
  have "pow2 (expo x) \<le> mag x" using i by (intro mag_lower[OF x]) simp
  moreover have "pow2 1024 \<le> pow2 (expo x)" using i e by (simp add: pow2_le_iff)
  ultimately have "2 ^ 1024 \<le> mag x" using p by linarith
  then show ?thesis using x by (simp add: rnd_def)
qed

lemma rnd_underflow:
  assumes "0 < x" "x < pow2 (- 1075)"
  shows "rnd x = Fin 0"
proof -
  have "pow2 (ilog2 x) \<le> x" using ilog2_bounds[OF assms(1)] by simp
  then have "pow2 (ilog2 x) < pow2 (- 1075)" using assms(2) by linarith
  then have "ilog2 x < - 1075" by (simp only: pow2_less_iff)
  then have e: "expo x = - 1022" by (simp add: expo_def)
  have q: "0 < pow2 (- 1074)" by (rule pow2_pos)
  have "pow2 (- 1075) * 2 = pow2 (- 1074)" using pow2_add[of "- 1075" 1] by (simp add: pow2_def)
  then have "x * 2 < pow2 (- 1074)" using assms(2) by linarith
  then have t: "x / pow2 (- 1074) < 1 / 2" using q by (simp add: field_simps)
  have t0: "0 \<le> x / pow2 (- 1074)" using assms(1) q by simp
  have "x / pow2 (- 1074) < 1" using t by linarith
  then have "\<lfloor>x / pow2 (- 1074)\<rfloor> = 0" using t0 by (intro floor_unique) simp_all
  then have "rne (x / pow2 (- 1074)) = 0" using t by (simp add: rne_def Let_def)
  then have "mag x = 0" by (simp add: mag_def e)
  then show ?thesis using assms(1) by (simp add: rnd_def)
qed

text \<open>The square root of a real bracketed by two rationals that round to the same double.\<close>

lemma rnd_sqrt_between:
  assumes "0 \<le> p" "p * p \<le> v" "v \<le> q * q" "0 \<le> q" "rnd p = d" "rnd q = d"
  shows "rnd (sqrt v) = d"
proof -
  have "sqrt (p * p) \<le> sqrt v" using assms(2) by (simp only: real_sqrt_le_iff)
  then have 1: "p \<le> sqrt v" using assms(1) by simp
  have "sqrt v \<le> sqrt (q * q)" using assms(3) by (simp only: real_sqrt_le_iff)
  then have 2: "sqrt v \<le> q" using assms(4) by simp
  have "le d (rnd (sqrt v))" using rnd_mono[OF 1] assms(5) by simp
  moreover have "le (rnd (sqrt v)) d" using rnd_mono[OF 2] assms(6) by simp
  ultimately show ?thesis by (intro le_antisym_num)
qed

section \<open>A table of roundings\<close>

text \<open>The roundings that the worked examples go through, each read off its binade.\<close>

lemma rnd_table:
  "rnd (1 / 10000) = Fin (7378697629483821 / 73786976294838206464)"
  "rnd (3002399751580331 / 18014398509481984) = Fin (3002399751580331 / 18014398509481984)"
  "rnd (1 / 5) = Fin (3602879701896397 / 18014398509481984)"
  "rnd (1 / 4) = Fin (1 / 4)"
  "rnd (21634570243895115118877068038417 / 81129638414606681695789005144064) = Fin (4803839602528529 / 18014398509481984)"
  "rnd (3 / 10) = Fin (5404319552844595 / 18014398509481984)"
  "rnd (6004799503160661 / 18014398509481984) = Fin (6004799503160661 / 18014398509481984)"
  "rnd (1 / 3) = Fin (6004799503160661 / 18014398509481984)"
  "rnd (3152519739159347 / 9007199254740992) = Fin (3152519739159347 / 9007199254740992)"
  "rnd (7 / 20) = Fin (3152519739159347 / 9007199254740992)"
  "rnd (2 / 5) = Fin (3602879701896397 / 9007199254740992)"
  "rnd (3602879701896397 / 9007199254740992) = Fin (3602879701896397 / 9007199254740992)"
  "rnd (3752999689475413 / 9007199254740992) = Fin (3752999689475413 / 9007199254740992)"
  "rnd (1 / 2) = Fin (1 / 2)"
  "rnd (5404319552844595 / 9007199254740992) = Fin (5404319552844595 / 9007199254740992)"
  "rnd (3 / 5) = Fin (5404319552844595 / 9007199254740992)"
  "rnd (6004799503160661 / 9007199254740992) = Fin (6004799503160661 / 9007199254740992)"
  "rnd (12009599006321323 / 18014398509481984) = Fin (3002399751580331 / 4503599627370496)"
  "rnd (7 / 10) = Fin (3152519739159347 / 4503599627370496)"
  "rnd (3 / 4) = Fin (3 / 4)"
  "rnd (4 / 5) = Fin (3602879701896397 / 4503599627370496)"
  "rnd (8333 / 10000) = Fin (7505699138975669 / 9007199254740992)"
  "rnd (15011998757901653 / 18014398509481984) = Fin (3752999689475413 / 4503599627370496)"
  "rnd (15011998757901655 / 18014398509481984) = Fin (1876499844737707 / 2251799813685248)"
  "rnd (1876499844737707 / 2251799813685248) = Fin (1876499844737707 / 2251799813685248)"
  "rnd 1 = Fin 1"
  "rnd (144115188075855875 / 144115188075855872) = Fin 1"
  "rnd (24019198012642645 / 18014398509481984) = Fin (6004799503160661 / 4503599627370496)"
  "rnd (7 / 5) = Fin (3152519739159347 / 2251799813685248)"
  "rnd 2 = Fin 2"
  "rnd (4691484174324859 / 2345390243441541) = Fin (563034404359419 / 281474976710656)"
  "rnd 3 = Fin 3"
  "rnd (18014398509481984 / 6004799503160661) = Fin 3"
  "rnd (15011998757901655 / 4503599627370496) = Fin (1876499844737707 / 562949953421312)"
  "rnd 5 = Fin 5"
  "rnd 10 = Fin 10"
  "rnd (102333 / 10000) = Fin (720104469793289 / 70368744177664)"
  "rnd (5760854523344759 / 562949953421312) = Fin (5760854523344759 / 562949953421312)"
  "rnd (184347344747032303 / 18014398509481984) = Fin (5760854523344759 / 562949953421312)"
  "rnd (47287796087390205 / 4503599627370496) = Fin (21 / 2)"
  "rnd (15762598695796735 / 1125899906842624) = Fin 14"
  "rnd (54043195528445955 / 2251799813685248) = Fin 24"
  "rnd 30 = Fin 30"
  "rnd (3333 / 100) = Fin (2345390243441541 / 70368744177664)"
  "rnd (192153584101141152 / 5764607523034235) = Fin (2345624805922133 / 70368744177664)"
  "rnd (150119987579016525 / 4503599627370496) = Fin (2345624805922133 / 70368744177664)"
  "rnd (240191980126426432 / 5764607523034235) = Fin (5864062014805333 / 140737488355328)"
  "rnd (93824992236885325 / 2251799813685248) = Fin (5864062014805333 / 140737488355328)"
  "rnd (4167 / 100) = Fin (2932265569883259 / 70368744177664)"
  "rnd (288230376151711744 / 5764607523034235) = Fin 50"
  "rnd 50 = Fin 50"
  "rnd (150119987579016525 / 2251799813685248) = Fin (2345624805922133 / 35184372088832)"
  "rnd (6667 / 100) = Fin (4691484174324859 / 70368744177664)"
  "rnd 80 = Fin 80"
  "rnd (576460752303423488 / 5764607523034235) = Fin 100"
  "rnd 100 = Fin 100"
  "rnd 120 = Fin 120"
  "rnd 150 = Fin 150"
  "rnd 200 = Fin 200"
  "rnd 300 = Fin 300"
  "rnd 900 = Fin 900"
  "rnd 1200 = Fin 1200"
  "rnd 9007199254740992 = Fin 9007199254740992"
  "rnd 9007199254740993 = Fin 9007199254740992"
proof -
  show "rnd (1 / 10000) = Fin (7378697629483821 / 73786976294838206464)"
    by (rule rnd_at[where i = "- 14"]) (simp_all add: pow2_def rne_def)
  show "rnd (3002399751580331 / 18014398509481984) = Fin (3002399751580331 / 18014398509481984)"
    by (rule rnd_at[where i = "- 3"]) (simp_all add: pow2_def rne_def)
  show "rnd (1 / 5) = Fin (3602879701896397 / 18014398509481984)"
    by (rule rnd_at[where i = "- 3"]) (simp_all add: pow2_def rne_def)
  show "rnd (1 / 4) = Fin (1 / 4)"
    by (rule rnd_at[where i = "- 2"]) (simp_all add: pow2_def rne_def)
  show "rnd (21634570243895115118877068038417 / 81129638414606681695789005144064) = Fin (4803839602528529 / 18014398509481984)"
    by (rule rnd_at[where i = "- 2"]) (simp_all add: pow2_def rne_def)
  show "rnd (3 / 10) = Fin (5404319552844595 / 18014398509481984)"
    by (rule rnd_at[where i = "- 2"]) (simp_all add: pow2_def rne_def)
  show "rnd (6004799503160661 / 18014398509481984) = Fin (6004799503160661 / 18014398509481984)"
    by (rule rnd_at[where i = "- 2"]) (simp_all add: pow2_def rne_def)
  show "rnd (1 / 3) = Fin (6004799503160661 / 18014398509481984)"
    by (rule rnd_at[where i = "- 2"]) (simp_all add: pow2_def rne_def)
  show "rnd (3152519739159347 / 9007199254740992) = Fin (3152519739159347 / 9007199254740992)"
    by (rule rnd_at[where i = "- 2"]) (simp_all add: pow2_def rne_def)
  show "rnd (7 / 20) = Fin (3152519739159347 / 9007199254740992)"
    by (rule rnd_at[where i = "- 2"]) (simp_all add: pow2_def rne_def)
  show "rnd (2 / 5) = Fin (3602879701896397 / 9007199254740992)"
    by (rule rnd_at[where i = "- 2"]) (simp_all add: pow2_def rne_def)
  show "rnd (3602879701896397 / 9007199254740992) = Fin (3602879701896397 / 9007199254740992)"
    by (rule rnd_at[where i = "- 2"]) (simp_all add: pow2_def rne_def)
  show "rnd (3752999689475413 / 9007199254740992) = Fin (3752999689475413 / 9007199254740992)"
    by (rule rnd_at[where i = "- 2"]) (simp_all add: pow2_def rne_def)
  show "rnd (1 / 2) = Fin (1 / 2)"
    by (rule rnd_at[where i = "- 1"]) (simp_all add: pow2_def rne_def)
  show "rnd (5404319552844595 / 9007199254740992) = Fin (5404319552844595 / 9007199254740992)"
    by (rule rnd_at[where i = "- 1"]) (simp_all add: pow2_def rne_def)
  show "rnd (3 / 5) = Fin (5404319552844595 / 9007199254740992)"
    by (rule rnd_at[where i = "- 1"]) (simp_all add: pow2_def rne_def)
  show "rnd (6004799503160661 / 9007199254740992) = Fin (6004799503160661 / 9007199254740992)"
    by (rule rnd_at[where i = "- 1"]) (simp_all add: pow2_def rne_def)
  show "rnd (12009599006321323 / 18014398509481984) = Fin (3002399751580331 / 4503599627370496)"
    by (rule rnd_at[where i = "- 1"]) (simp_all add: pow2_def rne_def)
  show "rnd (7 / 10) = Fin (3152519739159347 / 4503599627370496)"
    by (rule rnd_at[where i = "- 1"]) (simp_all add: pow2_def rne_def)
  show "rnd (3 / 4) = Fin (3 / 4)"
    by (rule rnd_at[where i = "- 1"]) (simp_all add: pow2_def rne_def)
  show "rnd (4 / 5) = Fin (3602879701896397 / 4503599627370496)"
    by (rule rnd_at[where i = "- 1"]) (simp_all add: pow2_def rne_def)
  show "rnd (8333 / 10000) = Fin (7505699138975669 / 9007199254740992)"
    by (rule rnd_at[where i = "- 1"]) (simp_all add: pow2_def rne_def)
  show "rnd (15011998757901653 / 18014398509481984) = Fin (3752999689475413 / 4503599627370496)"
    by (rule rnd_at[where i = "- 1"]) (simp_all add: pow2_def rne_def)
  show "rnd (15011998757901655 / 18014398509481984) = Fin (1876499844737707 / 2251799813685248)"
    by (rule rnd_at[where i = "- 1"]) (simp_all add: pow2_def rne_def)
  show "rnd (1876499844737707 / 2251799813685248) = Fin (1876499844737707 / 2251799813685248)"
    by (rule rnd_at[where i = "- 1"]) (simp_all add: pow2_def rne_def)
  show "rnd 1 = Fin 1"
    by (rule rnd_at[where i = "0"]) (simp_all add: pow2_def rne_def)
  show "rnd (144115188075855875 / 144115188075855872) = Fin 1"
    by (rule rnd_at[where i = "0"]) (simp_all add: pow2_def rne_def)
  show "rnd (24019198012642645 / 18014398509481984) = Fin (6004799503160661 / 4503599627370496)"
    by (rule rnd_at[where i = "0"]) (simp_all add: pow2_def rne_def)
  show "rnd (7 / 5) = Fin (3152519739159347 / 2251799813685248)"
    by (rule rnd_at[where i = "0"]) (simp_all add: pow2_def rne_def)
  show "rnd 2 = Fin 2"
    by (rule rnd_at[where i = "1"]) (simp_all add: pow2_def rne_def)
  show "rnd (4691484174324859 / 2345390243441541) = Fin (563034404359419 / 281474976710656)"
    by (rule rnd_at[where i = "1"]) (simp_all add: pow2_def rne_def)
  show "rnd 3 = Fin 3"
    by (rule rnd_at[where i = "1"]) (simp_all add: pow2_def rne_def)
  show "rnd (18014398509481984 / 6004799503160661) = Fin 3"
    by (rule rnd_at[where i = "1"]) (simp_all add: pow2_def rne_def)
  show "rnd (15011998757901655 / 4503599627370496) = Fin (1876499844737707 / 562949953421312)"
    by (rule rnd_at[where i = "1"]) (simp_all add: pow2_def rne_def)
  show "rnd 5 = Fin 5"
    by (rule rnd_at[where i = "2"]) (simp_all add: pow2_def rne_def)
  show "rnd 10 = Fin 10"
    by (rule rnd_at[where i = "3"]) (simp_all add: pow2_def rne_def)
  show "rnd (102333 / 10000) = Fin (720104469793289 / 70368744177664)"
    by (rule rnd_at[where i = "3"]) (simp_all add: pow2_def rne_def)
  show "rnd (5760854523344759 / 562949953421312) = Fin (5760854523344759 / 562949953421312)"
    by (rule rnd_at[where i = "3"]) (simp_all add: pow2_def rne_def)
  show "rnd (184347344747032303 / 18014398509481984) = Fin (5760854523344759 / 562949953421312)"
    by (rule rnd_at[where i = "3"]) (simp_all add: pow2_def rne_def)
  show "rnd (47287796087390205 / 4503599627370496) = Fin (21 / 2)"
    by (rule rnd_at[where i = "3"]) (simp_all add: pow2_def rne_def)
  show "rnd (15762598695796735 / 1125899906842624) = Fin 14"
    by (rule rnd_at[where i = "3"]) (simp_all add: pow2_def rne_def)
  show "rnd (54043195528445955 / 2251799813685248) = Fin 24"
    by (rule rnd_at[where i = "4"]) (simp_all add: pow2_def rne_def)
  show "rnd 30 = Fin 30"
    by (rule rnd_at[where i = "4"]) (simp_all add: pow2_def rne_def)
  show "rnd (3333 / 100) = Fin (2345390243441541 / 70368744177664)"
    by (rule rnd_at[where i = "5"]) (simp_all add: pow2_def rne_def)
  show "rnd (192153584101141152 / 5764607523034235) = Fin (2345624805922133 / 70368744177664)"
    by (rule rnd_at[where i = "5"]) (simp_all add: pow2_def rne_def)
  show "rnd (150119987579016525 / 4503599627370496) = Fin (2345624805922133 / 70368744177664)"
    by (rule rnd_at[where i = "5"]) (simp_all add: pow2_def rne_def)
  show "rnd (240191980126426432 / 5764607523034235) = Fin (5864062014805333 / 140737488355328)"
    by (rule rnd_at[where i = "5"]) (simp_all add: pow2_def rne_def)
  show "rnd (93824992236885325 / 2251799813685248) = Fin (5864062014805333 / 140737488355328)"
    by (rule rnd_at[where i = "5"]) (simp_all add: pow2_def rne_def)
  show "rnd (4167 / 100) = Fin (2932265569883259 / 70368744177664)"
    by (rule rnd_at[where i = "5"]) (simp_all add: pow2_def rne_def)
  show "rnd (288230376151711744 / 5764607523034235) = Fin 50"
    by (rule rnd_at[where i = "5"]) (simp_all add: pow2_def rne_def)
  show "rnd 50 = Fin 50"
    by (rule rnd_at[where i = "5"]) (simp_all add: pow2_def rne_def)
  show "rnd (150119987579016525 / 2251799813685248) = Fin (2345624805922133 / 35184372088832)"
    by (rule rnd_at[where i = "6"]) (simp_all add: pow2_def rne_def)
  show "rnd (6667 / 100) = Fin (4691484174324859 / 70368744177664)"
    by (rule rnd_at[where i = "6"]) (simp_all add: pow2_def rne_def)
  show "rnd 80 = Fin 80"
    by (rule rnd_at[where i = "6"]) (simp_all add: pow2_def rne_def)
  show "rnd (576460752303423488 / 5764607523034235) = Fin 100"
    by (rule rnd_at[where i = "6"]) (simp_all add: pow2_def rne_def)
  show "rnd 100 = Fin 100"
    by (rule rnd_at[where i = "6"]) (simp_all add: pow2_def rne_def)
  show "rnd 120 = Fin 120"
    by (rule rnd_at[where i = "6"]) (simp_all add: pow2_def rne_def)
  show "rnd 150 = Fin 150"
    by (rule rnd_at[where i = "7"]) (simp_all add: pow2_def rne_def)
  show "rnd 200 = Fin 200"
    by (rule rnd_at[where i = "7"]) (simp_all add: pow2_def rne_def)
  show "rnd 300 = Fin 300"
    by (rule rnd_at[where i = "8"]) (simp_all add: pow2_def rne_def)
  show "rnd 900 = Fin 900"
    by (rule rnd_at[where i = "9"]) (simp_all add: pow2_def rne_def)
  show "rnd 1200 = Fin 1200"
    by (rule rnd_at[where i = "10"]) (simp_all add: pow2_def rne_def)
  show "rnd 9007199254740992 = Fin 9007199254740992"
    by (rule rnd_at[where i = "53"]) (simp_all add: pow2_def rne_def)
  show "rnd 9007199254740993 = Fin 9007199254740992"
    by (rule rnd_at[where i = "53"]) (simp_all add: pow2_def rne_def)
qed

lemma sqrt_0: "fsqrt (Fin (7378697629483821 / 73786976294838206464)) = Fin (5764607523034235 / 576460752303423488)"
proof -
  have p: "rnd (11805916207174113317 / 1180591620717411303424) = Fin (5764607523034235 / 576460752303423488)"
    by (rule rnd_at[where i = "- 7"]) (simp_all add: pow2_def rne_def)
  have q: "rnd (23611832414348226635 / 2361183241434822606848) = Fin (5764607523034235 / 576460752303423488)"
    by (rule rnd_at[where i = "- 7"]) (simp_all add: pow2_def rne_def)
  have "rnd (sqrt (7378697629483821 / 73786976294838206464)) = Fin (5764607523034235 / 576460752303423488)"
    by (rule rnd_sqrt_between[where p = "(11805916207174113317 / 1180591620717411303424)" and q = "(23611832414348226635 / 2361183241434822606848)", OF _ _ _ _ p q]) simp_all
  then show ?thesis by (simp only: fsqrt.simps) simp
qed

section \<open>Drift detection on examples\<close>

lemmas num_eval = lit_def count_def fsub_def fsq_def gt_def ge_def feq_def fmin_def fmax_def
  or_zero_def decimal_round_def rnd_neg rnd_zero rnd_table

lemma byDay_rise: "byDay_of invoices_rise = [(''2026-02-01'', 3, 1), (''2026-02-11'', 1, 1)]"
  by (simp add: byDay_of_def invoices_rise_def mk_invoice_def is_anomaly_def)

lemma byDay_fall: "byDay_of invoices_fall = [(''2026-02-01'', 1, 1), (''2026-02-11'', 1, 0)]"
  by (simp add: byDay_of_def invoices_fall_def mk_invoice_def is_anomaly_def)

lemma byDay_late: "byDay_of invoices_late = [(''2026-02-15'', 1, 1)]"
  by (simp add: byDay_of_def invoices_late_def mk_invoice_def is_anomaly_def)

lemmas drift_eval = computeDriftDetection_def service_filter_def Let_def baselineDays_of_def
  avg_rate_def rate_of_def recentDays_of_def day_rate_def variance_of_def
  significance_of_def sqrt_0

lemma drift_rise:
  "computeDriftDetection invoices_rise None ''2026-02-10'' (Fin 3) =
     \<lparr>baselineRate = lit 33.33, currentRate = lit 66.67, drift_result.driftFactor = Fin 2,
      stdDev = Fin 1, zScore = lit 33.33, statistical_significance = ''HIGH_SIGNAL'',
      spike = False, threshold = Fin 3,
      dailyDrift = [\<lparr>date = ''2026-02-01'', anomalyRate = lit 33.33, daily_drift.driftFactor = Fin 1\<rparr>,
                    \<lparr>date = ''2026-02-11'', anomalyRate = Fin 100, daily_drift.driftFactor = Fin 3\<rparr>]\<rparr>"
  by (simp add: drift_eval byDay_rise num_eval del: fsqrt.simps)

lemma drift_fall:
  "computeDriftDetection invoices_fall None ''2026-02-10'' (Fin 3) =
     \<lparr>baselineRate = Fin 100, currentRate = Fin 50, drift_result.driftFactor = Fin 0.5,
      stdDev = Fin 1, zScore = Fin (- 50), statistical_significance = ''NOISE'',
      spike = False, threshold = Fin 3,
      dailyDrift = [\<lparr>date = ''2026-02-01'', anomalyRate = Fin 100, daily_drift.driftFactor = Fin 1\<rparr>,
                    \<lparr>date = ''2026-02-11'', anomalyRate = Fin 0, daily_drift.driftFactor = Fin 0\<rparr>]\<rparr>"
  by (simp add: drift_eval byDay_fall num_eval del: fsqrt.simps)

lemma drift_late:
  "computeDriftDetection invoices_late None ''2026-02-10'' thr =
     \<lparr>baselineRate = Fin 0, currentRate = Fin 100, drift_result.driftFactor = Fin 0,
      stdDev = Fin 1, zScore = Fin 100, statistical_significance = ''HIGH_SIGNAL'',
      spike = gt (Fin 0) thr, threshold = thr,
      dailyDrift = [\<lparr>date = ''2026-02-15'', anomalyRate = Fin 100, daily_drift.driftFactor = Fin 0\<rparr>]\<rparr>"
  by (simp add: drift_eval byDay_late num_eval del: fsqrt.simps)

section \<open>Daily rates\<close>

lemma bump_day_counts:
  "\<forall>e \<in> set m. 0 < fst (snd e) \<and> snd (snd e) \<le> fst (snd e) \<Longrightarrow>
   \<forall>e \<in> set (bump_day d a m). 0 < fst (snd e) \<and> snd (snd e) \<le> fst (snd e)"
  by (induction d a m rule: bump_day.induct) auto

lemma foldl_bump_day_counts:
  "\<forall>e \<in> set m. 0 < fst (snd e) \<and> snd (snd e) \<le> fst (snd e) \<Longrightarrow>
   \<forall>e \<in> set (foldl (\<lambda>byDay iv. bump_day (f iv) (g iv) byDay) m xs).
      0 < fst (snd e) \<and> snd (snd e) \<le> fst (snd e)"
proof (induction xs arbitrary: m)
  case Nil
  then show ?case by simp
next
  case (Cons x xs)
  have "\<forall>e \<in> set (bump_day (f x) (g x) m). 0 < fst (snd e) \<and> snd (snd e) \<le> fst (snd e)"
    using Cons.prems by (rule bump_day_counts)
  then show ?case using Cons.IH by simp
qed

lemma byDay_counts:
  "\<forall>e \<in> set (byDay_of xs). 0 < fst (snd e) \<and> snd (snd e) \<le> fst (snd e)"
  unfolding byDay_of_def by (rule foldl_bump_day_counts) simp

lemma rate_of_unit:
  "0 < t \<Longrightarrow> n \<le> t \<Longrightarrow> le (Fin 0) (rate_of (t, n)) \<and> le (rate_of (t, n)) (Fin 1)"
  using count_ratio[of n t] by (simp add: rate_of_def)

lemma baselineDays_unit:
  "\<forall>r \<in> set (baselineDays_of (byDay_of xs) b). le (Fin 0) r \<and> le r (Fin 1)"
proof
  fix r assume "r \<in> set (baselineDays_of (byDay_of xs) b)"
  then obtain d t n where e: "(d, t, n) \<in> set (byDay_of xs)" and r: "r = rate_of (t, n)"
    by (auto simp: baselineDays_of_def)
  have "0 < t \<and> n \<le> t" using byDay_counts[of xs] e by fastforce
  then show "le (Fin 0) r \<and> le r (Fin 1)" using rate_of_unit[of t n] r by simp
qed

lemma day_rate_unit:
  "le (Fin 0) (day_rate (byDay_of xs) d) \<and> le (day_rate (byDay_of xs) d) (Fin 1)"
proof (cases "map_of (byDay_of xs) d")
  case None
  then show ?thesis by (simp add: day_rate_def)
next
  case (Some v)
  obtain t n where v: "v = (t, n)" by (cases v)
  have "(d, t, n) \<in> set (byDay_of xs)" using Some v by (simp add: map_of_SomeD)
  then have "0 < t \<and> n \<le> t" using byDay_counts[of xs] by fastforce
  then show ?thesis using rate_of_unit[of t n] Some v by (simp add: day_rate_def)
qed

text \<open>A sum of rates stays finite: beyond \<open>2^53\<close> adding a rate no longer changes it.\<close>

lemma sum_of_rates:
  assumes "\<forall>r \<in> set rs. le (Fin 0) r \<and> le r (Fin 1)"
    and "le (Fin 0) s \<and> le s (Fin (2 ^ 53))"
  shows "le (Fin 0) (foldl (\<lambda>s r. fadd s r) s rs) \<and> le (foldl (\<lambda>s r. fadd s r) s rs) (Fin (2 ^ 53))"
  using assms
proof (induction rs arbitrary: s)
  case Nil
  then show ?case by simp
next
  case (Cons r rs)
  have r: "le (Fin 0) r" "le r (Fin 1)" using Cons.prems(1) by simp_all
  have "le (fadd s r) (rnd (2 ^ 53 + 1))" using Cons.prems(2) r(2) by (intro fadd_upper) simp_all
  then have "le (fadd s r) (Fin (2 ^ 53))" by (simp add: rnd_table)
  moreover have "le (Fin 0) (fadd s r)" using Cons.prems(2) r(1) by (intro fadd_nonneg) simp_all
  ultimately show ?case using Cons.IH[of "fadd s r"] Cons.prems(1) by simp
qed

lemma avg_rate_finite:
  assumes "\<forall>r \<in> set rs. le (Fin 0) r \<and> le r (Fin 1)"
  shows "\<exists>v. avg_rate rs = Fin v \<and> 0 \<le> v"
proof (cases "length rs > 0")
  case False
  then show ?thesis by (simp add: avg_rate_def)
next
  case True
  have "le (Fin 0) (foldl (\<lambda>s r. fadd s r) (Fin 0) rs) \<and>
        le (foldl (\<lambda>s r. fadd s r) (Fin 0) rs) (Fin (2 ^ 53))"
    using assms by (rule sum_of_rates) simp
  then obtain s where s: "foldl (\<lambda>s r. fadd s r) (Fin 0) rs = Fin s" "0 \<le> s" "s \<le> 2 ^ 53"
    using between_Fin by blast
  have n: "1 \<le> real (length rs)" using True by (simp add: Suc_leI)
  have "0 \<le> s / real (length rs)" using s(2) by simp
  moreover have "s / real (length rs) \<le> 2 ^ 53"
  proof -
    have npos: "0 < real (length rs)" using True by simp
    have "s * 1 \<le> s * real (length rs)" using n s(2) by (rule mult_left_mono)
    then have "s \<le> s * real (length rs)" by simp
    then have "s / real (length rs) \<le> s" unfolding pos_divide_le_eq[OF npos] .
    then show ?thesis using s(3) by linarith
  qed
  ultimately have "le (Fin 0) (rnd (s / real (length rs)))"
    "le (rnd (s / real (length rs))) (Fin (2 ^ 53))"
    using rnd_nonneg rnd_mono[of "s / real (length rs)" "2 ^ 53"] by (simp_all add: rnd_table)
  then obtain v where "rnd (s / real (length rs)) = Fin v" "0 \<le> v" using between_Fin by blast
  then show ?thesis using True s(1) by (simp add: avg_rate_def count_def)
qed

section \<open>Drift factor and spike\<close>

text \<open>
  Claim C6, as stated: the reported \<open>driftFactor\<close> is the quotient of the reported
  \<open>currentRate\<close> and \<open>baselineRate\<close>, and zero baseline days never declare a spike. The
  three fields are rounded to two decimals separately: for \<open>invoices_rise\<close> they are 2,
  66.67 and 33.33. With zero baseline days the drift factor is 0, which exceeds a negative
  threshold: \<open>invoices_late\<close> with threshold -1 declares a spike.
\<close>

theorem drift_counterexample:
  "gt (baselineRate (computeDriftDetection invoices_rise None ''2026-02-10'' (Fin 3))) (Fin 0) \<and>
   drift_result.driftFactor (computeDriftDetection invoices_rise None ''2026-02-10'' (Fin 3)) \<noteq>
     fdiv (currentRate (computeDriftDetection invoices_rise None ''2026-02-10'' (Fin 3)))
          (baselineRate (computeDriftDetection invoices_rise None ''2026-02-10'' (Fin 3))) \<and>
   baselineDays_of (byDay_of (service_filter None invoices_late)) ''2026-02-10'' = [] \<and>
   spike (computeDriftDetection invoices_late None ''2026-02-10'' (Fin (- 1)))"
  by (simp add: drift_rise drift_late service_filter_def byDay_late baselineDays_of_def num_eval)

text \<open>
  Claim C6, amended: for every invoice list, service filter, baseline boundary and threshold,
  with every operation in double arithmetic, the reported drift factor is the quotient of the
  unrounded mean daily rates (current over baseline) rounded to two decimals when the
  unrounded baseline rate is positive and 0 otherwise; the reported rates are the unrounded
  ones as percentages to two decimals; the drift factor is never negative; the spike flag
  compares the unrounded quotient with the threshold; and with zero baseline days the
  baseline rate and the drift factor are 0 and, for a threshold that is not negative, no
  spike is declared.
\<close>

theorem drift_factor_guarded:
  "let res = computeDriftDetection invoices svc baselineEnd thr;
       byDay = byDay_of (service_filter svc invoices);
       base = avg_rate (baselineDays_of byDay baselineEnd);
       cur = avg_rate (map (day_rate byDay) (recentDays_of (sort (map fst byDay))))
   in drift_result.driftFactor res =
        (if gt base (Fin 0) then toFixed 2 (fdiv cur base) else Fin 0) \<and>
      baselineRate res = toFixed 2 (fmul base (Fin 100)) \<and>
      currentRate res = toFixed 2 (fmul cur (Fin 100)) \<and>
      le (Fin 0) (drift_result.driftFactor res) \<and>
      spike res = gt (if gt base (Fin 0) then fdiv cur base else Fin 0) thr \<and>
      (baselineDays_of byDay baselineEnd = [] \<longrightarrow>
         base = Fin 0 \<and> baselineRate res = Fin 0 \<and> drift_result.driftFactor res = Fin 0 \<and>
         (le (Fin 0) thr \<longrightarrow> \<not> spike res))"
proof -
  define byDay where "byDay = byDay_of (service_filter svc invoices)"
  define base where "base = avg_rate (baselineDays_of byDay baselineEnd)"
  define cur where "cur = avg_rate (map (day_rate byDay) (recentDays_of (sort (map fst byDay))))"
  define res where "res = computeDriftDetection invoices svc baselineEnd thr"
  define q where "q = (if gt base (Fin 0) then fdiv cur base else Fin 0)"
  obtain b where b: "base = Fin b" "0 \<le> b"
    unfolding base_def byDay_def using avg_rate_finite[OF baselineDays_unit] by blast
  have "\<forall>r \<in> set (map (day_rate byDay) (recentDays_of (sort (map fst byDay)))).
          le (Fin 0) r \<and> le r (Fin 1)"
    unfolding byDay_def using day_rate_unit by simp
  then obtain c where c: "cur = Fin c" "0 \<le> c"
    unfolding cur_def using avg_rate_finite by blast
  have q0: "le (Fin 0) q"
  proof (cases "0 < b")
    case True
    then have "0 \<le> c / b" using c(2) by simp
    then show ?thesis using True b c by (simp add: q_def gt_def rnd_nonneg)
  next
    case False
    then show ?thesis using b by (simp add: q_def gt_def)
  qed
  have f1: "drift_result.driftFactor res = toFixed 2 q"
    by (simp add: res_def computeDriftDetection_def Let_def byDay_def base_def cur_def q_def)
  have f2: "baselineRate res = toFixed 2 (fmul base (Fin 100))"
    by (simp add: res_def computeDriftDetection_def Let_def byDay_def base_def)
  have f3: "currentRate res = toFixed 2 (fmul cur (Fin 100))"
    by (simp add: res_def computeDriftDetection_def Let_def byDay_def cur_def)
  have f4: "spike res = gt q thr"
    by (simp add: res_def computeDriftDetection_def Let_def byDay_def base_def cur_def q_def)
  have f5: "toFixed 2 q = (if gt base (Fin 0) then toFixed 2 (fdiv cur base) else Fin 0)"
    by (simp add: q_def decimal_round_def rnd_zero)
  have f6: "le (Fin 0) (drift_result.driftFactor res)"
    unfolding f1 using q0 by (rule toFixed_nonneg)
  have e: "base = Fin 0 \<and> baselineRate res = Fin 0 \<and> drift_result.driftFactor res = Fin 0 \<and>
           (le (Fin 0) thr \<longrightarrow> \<not> spike res)"
    if "baselineDays_of byDay baselineEnd = []"
  proof -
    from that have z: "base = Fin 0" by (simp add: base_def avg_rate_def)
    then have "q = Fin 0" by (simp add: q_def gt_def)
    moreover have "le (Fin 0) thr \<longrightarrow> \<not> gt (Fin 0) thr" using le_not_lt by (auto simp: gt_def)
    moreover have "toFixed 2 (fmul (Fin 0) (Fin 100)) = Fin 0"
      by (simp add: rnd_zero decimal_round_def)
    ultimately show ?thesis using z by (simp add: f1 f2 f4 decimal_round_def rnd_zero)
  qed
  have "drift_result.driftFactor res =
        (if gt base (Fin 0) then toFixed 2 (fdiv cur base) else Fin 0) \<and>
      baselineRate res = toFixed 2 (fmul base (Fin 100)) \<and>
      currentRate res = toFixed 2 (fmul cur (Fin 100)) \<and>
      le (Fin 0) (drift_result.driftFactor res) \<and>
      spike res = gt (if gt base (Fin 0) then fdiv cur base else Fin 0) thr \<and>
      (baselineDays_of byDay baselineEnd = [] \<longrightarrow>
         base = Fin 0 \<and> baselineRate res = Fin 0 \<and> drift_result.driftFactor res = Fin 0 \<and>
         (le (Fin 0) thr \<longrightarrow> \<not> spike res))"
    using f1[unfolded f5] f2 f3 f4[unfolded q_def] f6 e by blast
  then show ?thesis
    unfolding Let_def res_def base_def cur_def byDay_def .
qed

theorem drift_factor_guarded_witness:
  "drift_result.driftFactor (computeDriftDetection invoices_late None ''2026-02-10'' (Fin 3)) = Fin 0 \<and>
   \<not> spike (computeDriftDetection invoices_late None ''2026-02-10'' (Fin 3))"
  using drift_factor_guarded [of invoices_late None "''2026-02-10''" "Fin 3"]
  by (simp add: Let_def service_filter_def byDay_late baselineDays_of_def avg_rate_def gt_def)

section \<open>Significance tiers\<close>

lemma drift_z:
  "\<exists>z. zScore (computeDriftDetection invoices svc baselineEnd thr) = toFixed 2 z \<and>
       statistical_significance (computeDriftDetection invoices svc baselineEnd thr) = significance_of z"
  unfolding computeDriftDetection_def Let_def drift_result.select_convs by blast

lemma significance_mono:
  assumes "le a b"
  shows "tier_rank (significance_of a) \<le> tier_rank (significance_of b)"
proof -
  have "lt (Fin c) a \<Longrightarrow> lt (Fin c) b" for c using assms by (rule lt_le_trans_num[rotated])
  then show ?thesis by (auto simp: tier_rank_def significance_of_def gt_def)
qed

text \<open>
  Claim C7, amended: the significance tier is monotonic in the signed z-score: of two drift
  results, the one with the strictly smaller reported z-score never has the strictly higher
  tier; so the tier is monotonic in the absolute z-score whenever the z-score of larger
  absolute value is not negative.
\<close>

theorem tier_monotone_in_z:
  "(lt (zScore (computeDriftDetection ia sa ba ta)) (zScore (computeDriftDetection ib sb bb tb)) \<longrightarrow>
      tier_rank (statistical_significance (computeDriftDetection ia sa ba ta))
        \<le> tier_rank (statistical_significance (computeDriftDetection ib sb bb tb))) \<and>
   (le (Fin 0) (zScore (computeDriftDetection ib sb bb tb)) \<and>
    lt (fabs (zScore (computeDriftDetection ia sa ba ta)))
       (fabs (zScore (computeDriftDetection ib sb bb tb))) \<longrightarrow>
      tier_rank (statistical_significance (computeDriftDetection ia sa ba ta))
        \<le> tier_rank (statistical_significance (computeDriftDetection ib sb bb tb)))"
proof -
  obtain za where za: "zScore (computeDriftDetection ia sa ba ta) = toFixed 2 za"
    "statistical_significance (computeDriftDetection ia sa ba ta) = significance_of za"
    using drift_z by blast
  obtain zb where zb: "zScore (computeDriftDetection ib sb bb tb) = toFixed 2 zb"
    "statistical_significance (computeDriftDetection ib sb bb tb) = significance_of zb"
    using drift_z by blast
  have m: "tier_rank (significance_of za) \<le> tier_rank (significance_of zb)"
    if "lt (toFixed 2 za) (toFixed 2 zb)"
    using that toFixed_lt_imp lt_imp_le significance_mono by blast
  have a: "lt (toFixed 2 za) (toFixed 2 zb)"
    if p: "le (Fin 0) (toFixed 2 zb)" and l: "lt (fabs (toFixed 2 za)) (fabs (toFixed 2 zb))"
  proof -
    have "fabs (toFixed 2 za) \<noteq> NaN" using lt_not_NaN[OF l] by simp
    then have "toFixed 2 za \<noteq> NaN" by (cases "toFixed 2 za") simp_all
    then have "le (toFixed 2 za) (fabs (toFixed 2 za))" by (rule le_fabs)
    then have "lt (toFixed 2 za) (fabs (toFixed 2 zb))" using l by (rule le_lt_trans_num)
    then show ?thesis using fabs_nonneg[OF p] by simp
  qed
  show ?thesis unfolding za zb using m a by blast
qed

theorem tier_monotone_in_z_witness:
  "tier_rank (statistical_significance (computeDriftDetection invoices_fall None ''2026-02-10'' (Fin 3)))
     \<le> tier_rank (statistical_significance (computeDriftDetection invoices_rise None ''2026-02-10'' (Fin 3))) \<and>
   tier_rank (statistical_significance (computeDriftDetection invoices_rise None ''2026-02-10'' (Fin 3)))
     \<le> tier_rank (statistical_significance (computeDriftDetection invoices_late None ''2026-02-10'' (Fin 3)))"
  using tier_monotone_in_z [of invoices_fall None "''2026-02-10''" "Fin 3" invoices_rise None "''2026-02-10''" "Fin 3"]
    tier_monotone_in_z [of invoices_rise None "''2026-02-10''" "Fin 3" invoices_late None "''2026-02-10''" "Fin 3"]
  by (simp add: drift_rise drift_fall drift_late num_eval)

text \<open>
  Claim C7, as stated: the result with the strictly larger absolute z-score never has the
  strictly lower tier. For \<open>invoices_fall\<close> the z-score is -50 and the tier NOISE; for
  \<open>invoices_rise\<close> the z-score is 33.33 and the tier HIGH_SIGNAL.
\<close>

theorem tier_not_monotone_in_abs_z:
  "gt (fabs (zScore (computeDriftDetection invoices_fall None ''2026-02-10'' (Fin 3))))
      (fabs (zScore (computeDriftDetection invoices_rise None ''2026-02-10'' (Fin 3)))) \<and>
   tier_rank (statistical_significance (computeDriftDetection invoices_fall None ''2026-02-10'' (Fin 3)))
     < tier_rank (statistical_significance (computeDriftDetection invoices_rise None ''2026-02-10'' (Fin 3)))"
  by (simp add: drift_rise drift_fall tier_rank_def num_eval)

end
